theory Spec2Isabelle
  imports Main "HOL-Library.Word"
begin

section \<open>Bytes, files and cursors\<close>

text \<open>
  The block log of \<^verbatim>\<open>block_log.cpp\<close> is a pair of files: the log (a preamble followed
  by entries) and the index (packed 64-bit positions). A file is the list of its bytes;
  the file system is a map from path names to files. Fixed-width integers are words and
  wrap around as in the source; offsets into a file are natural numbers obtained from
  them with \<open>unat\<close>.
\<close>

type_synonym byte = "8 word"
type_synonym bytes = "byte list"
type_synonym u32 = "32 word"
type_synonym u64 = "64 word"
type_synonym path = string
type_synonym filesystem = "path \<rightharpoonup> bytes"

text \<open>
  The exceptions of the source, named after the error kinds of the specification where
  it has one. \<open>StreamError\<close> is a read past the end of an \<^verbatim>\<open>fc::datastream\<close> or a
  failed file operation; \<open>DecodeError\<close> is a failure of a decoder of the chain layer.
  \<open>OutOfRange\<close> is an access outside the pages of a memory-mapped file: it stops the
  process and is no C++ exception, so that no handler of the source catches it.
  \<open>DivisionByZero\<close> and \<open>NullPointer\<close> stand for the two other undefined operations the
  code can reach.
\<close>

datatype error =
    NotSetup
  | UnsupportedVersion
  | MalformedPreamble
  | MalformedEntry
  | WrongBlock
  | AppendBeforeReset
  | IndexDesync
  | AppendFail
  | ChainIdMismatch
  | BlockCountMismatch
  | PruneUnsupported
  | NoSuchBlock
  | InvalidPosition
  | IndexSizeError
  | FileNotFound
  | StreamError
  | DecodeError
  | OutOfRange
  | DivisionByZero
  | BadVariantAccess
  | NullPointer

definition npos :: u64 where
  "npos = - 1"

text \<open>Little-endian decoding of a run of bytes, and its inverse at a fixed width.\<close>

definition le_nat :: "bytes \<Rightarrow> nat" where
  "le_nat bs = foldr (\<lambda>b a. unat b + 256 * a) bs 0"

fun le_bytes :: "nat \<Rightarrow> nat \<Rightarrow> bytes" where
  "le_bytes 0 v = []"
| "le_bytes (Suc n) v = of_nat (v mod 256) # le_bytes n (v div 256)"

definition le32 :: "u32 \<Rightarrow> bytes" where
  "le32 w = le_bytes 4 (unat w)"

definition le64 :: "u64 \<Rightarrow> bytes" where
  "le64 w = le_bytes 8 (unat w)"

text \<open>
  \<^verbatim>\<open>read_buffer<T>(buf)\<close> on a mapped file is a \<open>memcpy\<close> of \<open>sizeof(T)\<close> bytes at an
  offset, with no check against the size of the file. A file is mapped
  (\<^verbatim>\<open>boost::iostreams::mapped_file_source\<close>) in whole pages: the bytes between the end of
  the file and the end of its last page read as zero, and an access outside the pages
  stops the process.
\<close>

definition page_size :: nat where
  "page_size = 4096"

definition mapped_size :: "bytes \<Rightarrow> nat" where
  "mapped_size d = ((length d + page_size - 1) div page_size) * page_size"

definition read_bytes :: "bytes \<Rightarrow> nat \<Rightarrow> nat \<Rightarrow> error + bytes" where
  "read_bytes d off n =
     (if off + n \<le> length d then Inr (take n (drop off d))
      else if off + n \<le> mapped_size d then Inr (take n (drop off d @ replicate n 0))
      else Inl OutOfRange)"

definition read_buffer_u32 :: "bytes \<Rightarrow> nat \<Rightarrow> error + u32" where
  "read_buffer_u32 d off =
     (case read_bytes d off 4 of Inl e \<Rightarrow> Inl e | Inr bs \<Rightarrow> Inr (of_nat (le_nat bs)))"

definition read_buffer_u64 :: "bytes \<Rightarrow> nat \<Rightarrow> error + u64" where
  "read_buffer_u64 d off =
     (case read_bytes d off 8 of Inl e \<Rightarrow> Inl e | Inr bs \<Rightarrow> Inr (of_nat (le_nat bs)))"

text \<open>
  An \<^verbatim>\<open>fc::datastream\<close> is a buffer with a cursor. \<open>read\<close> raises past the end; \<open>skip\<close>
  only moves the cursor.
\<close>

record datastream =
  buf :: bytes
  cur :: nat

definition remaining :: "datastream \<Rightarrow> bytes" where
  "remaining ds = drop (cur ds) (buf ds)"

definition ds_read :: "datastream \<Rightarrow> nat \<Rightarrow> error + (bytes \<times> datastream)" where
  "ds_read ds n =
     (if cur ds + n \<le> length (buf ds)
      then Inr (take n (drop (cur ds) (buf ds)), ds\<lparr>cur := cur ds + n\<rparr>)
      else Inl StreamError)"

definition ds_read_u8 :: "datastream \<Rightarrow> error + (byte \<times> datastream)" where
  "ds_read_u8 ds =
     (case ds_read ds 1 of Inl e \<Rightarrow> Inl e | Inr (bs, ds') \<Rightarrow> Inr (of_nat (le_nat bs), ds'))"

definition ds_read_u32 :: "datastream \<Rightarrow> error + (u32 \<times> datastream)" where
  "ds_read_u32 ds =
     (case ds_read ds 4 of Inl e \<Rightarrow> Inl e | Inr (bs, ds') \<Rightarrow> Inr (of_nat (le_nat bs), ds'))"

definition ds_read_u64 :: "datastream \<Rightarrow> error + (u64 \<times> datastream)" where
  "ds_read_u64 ds =
     (case ds_read ds 8 of Inl e \<Rightarrow> Inl e | Inr (bs, ds') \<Rightarrow> Inr (of_nat (le_nat bs), ds'))"

definition ds_skip :: "datastream \<Rightarrow> nat \<Rightarrow> datastream" where
  "ds_skip ds n = ds\<lparr>cur := cur ds + n\<rparr>"

section \<open>Versions and the preamble\<close>

definition initial_version :: u32 where
  "initial_version = 1"

definition block_x_start_version :: u32 where
  "block_x_start_version = 2"

definition genesis_state_or_chain_id_version :: u32 where
  "genesis_state_or_chain_id_version = 3"

definition pruned_transaction_version :: u32 where
  "pruned_transaction_version = 4"

definition min_supported_version :: u32 where
  "min_supported_version = initial_version"

definition max_supported_version :: u32 where
  "max_supported_version = pruned_transaction_version"

text \<open>\<^verbatim>\<open>std::clamp(v, lo, hi)\<close>.\<close>

definition clamp :: "u32 \<Rightarrow> u32 \<Rightarrow> u32 \<Rightarrow> u32" where
  "clamp v lo hi = (if v < lo then lo else if hi < v then hi else v)"

definition is_supported_version :: "u32 \<Rightarrow> bool" where
  "is_supported_version v = (clamp v min_supported_version max_supported_version = v)"

definition contains_genesis_state :: "u32 \<Rightarrow> u32 \<Rightarrow> bool" where
  "contains_genesis_state v fbn = (v < genesis_state_or_chain_id_version \<or> fbn = 1)"

definition contains_chain_id :: "u32 \<Rightarrow> u32 \<Rightarrow> bool" where
  "contains_chain_id v fbn = (v \<ge> genesis_state_or_chain_id_version \<and> fbn > 1)"

text \<open>
  The chain context is \<^verbatim>\<open>std::variant<genesis_state, chain_id_type>\<close>. The genesis state
  \<open>'g\<close> belongs to the chain layer; a chain id is a 32-byte digest (specification, section
  6: \<^verbatim>\<open>chain_id (32B)\<close>).
\<close>

datatype 'g chain_context = Genesis 'g | ChainId bytes

definition sizeof_chain_id :: nat where
  "sizeof_chain_id = 32"

record 'g block_log_preamble =
  version :: u32
  first_block_num :: u32
  chain_context :: "'g chain_context"

fun is_genesis :: "'g chain_context \<Rightarrow> bool" where
  "is_genesis (Genesis g) = True"
| "is_genesis (ChainId c) = False"

fun is_chain_id :: "'g chain_context \<Rightarrow> bool" where
  "is_chain_id (Genesis g) = False"
| "is_chain_id (ChainId c) = True"

text \<open>
  \<^verbatim>\<open>block_log_preamble::read_from\<close>. The decoder of the genesis state is the chain layer's
  \<^verbatim>\<open>fc::raw::unpack\<close>: from the bytes at the cursor it gives the state and the number of
  bytes it consumed, or fails.
\<close>

definition read_chain_context ::
  "(bytes \<Rightarrow> error + ('g \<times> nat)) \<Rightarrow> u32 \<Rightarrow> u32 \<Rightarrow> datastream
     \<Rightarrow> error + ('g chain_context \<times> datastream)" where
  "read_chain_context unpack_genesis v fbn ds =
     (if contains_genesis_state v fbn then
        (case unpack_genesis (remaining ds) of
           Inl e \<Rightarrow> Inl e
         | Inr (g, n) \<Rightarrow> Inr (Genesis g, ds_skip ds n))
      else if contains_chain_id v fbn then
        (case ds_read ds sizeof_chain_id of
           Inl e \<Rightarrow> Inl e
         | Inr (cid, ds') \<Rightarrow> Inr (ChainId cid, ds'))
      else Inl MalformedPreamble)"

definition read_from ::
  "(bytes \<Rightarrow> error + ('g \<times> nat)) \<Rightarrow> datastream
     \<Rightarrow> error + ('g block_log_preamble \<times> datastream)" where
  "read_from unpack_genesis ds =
     (case ds_read_u32 ds of
        Inl e \<Rightarrow> Inl e
      | Inr (v, ds1) \<Rightarrow>
          if \<not> v > 0 then Inl NotSetup
          else if \<not> is_supported_version v then Inl UnsupportedVersion
          else
            (case (if v \<noteq> initial_version then ds_read_u32 ds1 else Inr (1, ds1)) of
               Inl e \<Rightarrow> Inl e
             | Inr (fbn, ds2) \<Rightarrow>
                 (case read_chain_context unpack_genesis v fbn ds2 of
                    Inl e \<Rightarrow> Inl e
                  | Inr (ctx, ds3) \<Rightarrow>
                      let p = \<lparr>version = v, first_block_num = fbn, chain_context = ctx\<rparr> in
                      if v \<noteq> initial_version then
                        (case ds_read_u64 ds3 of
                           Inl e \<Rightarrow> Inl e
                         | Inr (actual_totem, ds4) \<Rightarrow>
                             if actual_totem = npos then Inr (p, ds4)
                             else Inl MalformedPreamble)
                      else Inr (p, ds3))))"

section \<open>Entries\<close>

text \<open>
  \<^verbatim>\<open>offset_to_block_start\<close>: the bytes of a version-4 entry before the block (the size and
  the compression tag).
\<close>

definition offset_to_block_start :: "u32 \<Rightarrow> nat" where
  "offset_to_block_start v = (if v \<ge> pruned_transaction_version then 4 + 1 else 0)"

record metadata_type =
  compression :: byte
  size' :: u32

text \<open>
  \<^verbatim>\<open>bytes_to_skip\<close> of \<^verbatim>\<open>unpack\<close>: the subtraction is done in 64 bits and read as a signed
  value.
\<close>

definition bytes_to_skip :: "u32 \<Rightarrow> u64 \<Rightarrow> int" where
  "bytes_to_skip sz current_stream_offset = sint ((ucast sz :: u64) - 8 - current_stream_offset)"

text \<open>
  \<^verbatim>\<open>unpack(ds, block)\<close> for a version-4 entry. \<open>compression_type_count\<close> is the enumerator
  \<^verbatim>\<open>COMPRESSION_TYPE_COUNT\<close> and \<open>unpack_block\<close> is \<^verbatim>\<open>signed_block::unpack\<close>, both of the
  chain layer; the tag \<open>none\<close> is 0.
\<close>

definition unpack_entry ::
  "nat \<Rightarrow> (bytes \<Rightarrow> byte \<Rightarrow> error + ('b \<times> nat)) \<Rightarrow> datastream
     \<Rightarrow> error + (metadata_type \<times> 'b \<times> datastream)" where
  "unpack_entry compression_type_count unpack_block ds =
     (let start_pos = cur ds in
      case ds_read_u32 ds of
        Inl e \<Rightarrow> Inl e
      | Inr (sz, ds1) \<Rightarrow>
          (case ds_read_u8 ds1 of
             Inl e \<Rightarrow> Inl e
           | Inr (c, ds2) \<Rightarrow>
               if \<not> unat c < compression_type_count then Inl MalformedEntry
               else if c \<noteq> 0 then Inl MalformedEntry
               else
                 (case unpack_block (remaining ds2) c of
                    Inl e \<Rightarrow> Inl e
                  | Inr (blk, n) \<Rightarrow>
                      let ds3 = ds_skip ds2 n;
                          current_stream_offset = (of_nat (cur ds3) - of_nat start_pos :: u64);
                          k = bytes_to_skip sz current_stream_offset
                      in if k \<ge> 0
                         then Inr (\<lparr>compression = c, size' = sz\<rparr>, blk, ds_skip ds3 (nat k))
                         else Inl MalformedEntry)))"

section \<open>The file system\<close>

text \<open>
  \<open>dir / name\<close> of \<^verbatim>\<open>boost::filesystem\<close>, \<^verbatim>\<open>resize_file\<close> (which truncates, or extends with
  zero bytes), \<^verbatim>\<open>rename\<close> and \<^verbatim>\<open>remove\<close>.
\<close>

definition path_join :: "path \<Rightarrow> string \<Rightarrow> path" where
  "path_join dir name = dir @ ''/'' @ name"

definition resize_bytes :: "bytes \<Rightarrow> nat \<Rightarrow> bytes" where
  "resize_bytes d n = take n d @ replicate (n - length d) 0"

definition resize_file :: "filesystem \<Rightarrow> path \<Rightarrow> nat \<Rightarrow> error + filesystem" where
  "resize_file fs p n =
     (case fs p of
        None \<Rightarrow> Inl FileNotFound
      | Some d \<Rightarrow> Inr (fs(p \<mapsto> resize_bytes d n)))"

definition rename_file :: "filesystem \<Rightarrow> path \<Rightarrow> path \<Rightarrow> error + filesystem" where
  "rename_file fs a b =
     (case fs a of
        None \<Rightarrow> Inl FileNotFound
      | Some d \<Rightarrow> Inr ((fs(a := None))(b \<mapsto> d)))"

definition remove_file :: "filesystem \<Rightarrow> path \<Rightarrow> filesystem" where
  "remove_file fs p = fs(p := None)"

section \<open>The read-only view of a log file\<close>

text \<open>
  \<^verbatim>\<open>block_log_data\<close>: the mapped file, the preamble parsed from it and the position of the
  first entry. \<open>block_num_at\<close> checks its position against the size of the file and then
  reads the block number 14 bytes into the block, wherever that is;
  \<open>last_block_position\<close> reads the last 8 bytes, which lie before the mapping when the
  file is shorter.
\<close>

record 'g block_log_data =
  data :: bytes
  preamble :: "'g block_log_preamble"
  first_block_pos :: nat

definition block_log_data_open ::
  "(bytes \<Rightarrow> error + ('g \<times> nat)) \<Rightarrow> filesystem \<Rightarrow> path
     \<Rightarrow> error + ('g block_log_data \<times> datastream)" where
  "block_log_data_open unpack_genesis fs p =
     (case fs p of
        None \<Rightarrow> Inl FileNotFound
      | Some d \<Rightarrow>
          (case read_from unpack_genesis \<lparr>buf = d, cur = 0\<rparr> of
             Inl e \<Rightarrow> Inl e
           | Inr (pre, ds) \<Rightarrow>
               Inr (\<lparr>data = d, preamble = pre, first_block_pos = cur ds\<rparr>, ds)))"

definition data_size :: "'g block_log_data \<Rightarrow> nat" where
  "data_size d = length (data d)"

definition data_version :: "'g block_log_data \<Rightarrow> u32" where
  "data_version d = version (preamble d)"

definition data_first_block_num :: "'g block_log_data \<Rightarrow> u32" where
  "data_first_block_num d = first_block_num (preamble d)"

definition last_block_position :: "'g block_log_data \<Rightarrow> error + u64" where
  "last_block_position d =
     (if data_size d < 8 then Inl OutOfRange
      else read_buffer_u64 (data d) (data_size d - 8))"

text \<open>\<^verbatim>\<open>fc::endian_reverse_u32\<close>.\<close>

definition endian_reverse_u32 :: "u32 \<Rightarrow> u32" where
  "endian_reverse_u32 w = of_nat (le_nat (rev (le32 w)))"

definition block_num_at :: "'g block_log_data \<Rightarrow> u64 \<Rightarrow> error + u32" where
  "block_num_at d position =
     (if \<not> unat position \<le> data_size d then Inl InvalidPosition
      else
        let blknum_offset = 14 + offset_to_block_start (data_version d) in
        case read_buffer_u32 (data d) (unat position + blknum_offset) of
          Inl e \<Rightarrow> Inl e
        | Inr prev_block_num \<Rightarrow> Inr (endian_reverse_u32 prev_block_num + 1))"

definition last_block_num_of :: "'g block_log_data \<Rightarrow> error + u32" where
  "last_block_num_of d =
     (case last_block_position d of
        Inl e \<Rightarrow> Inl e
      | Inr p \<Rightarrow> block_num_at d p)"

definition num_blocks :: "'g block_log_data \<Rightarrow> error + u32" where
  "num_blocks d =
     (if first_block_pos d = data_size d then Inr 0
      else
        case last_block_num_of d of
          Inl e \<Rightarrow> Inl e
        | Inr l \<Rightarrow> Inr (l - data_first_block_num d + 1))"


section \<open>The read-only view of an index file\<close>

text \<open>
  \<^verbatim>\<open>block_log_index\<close> is the mapped index file. \<open>open\<close> asserts that its size is a multiple
  of 8; \<open>back\<close> is its last position, \<open>nth_block_position\<close> its \<open>n\<close>-th. Both dereference a
  pointer into the mapping and check nothing: \<open>back\<close> reads before the mapping when the
  file is empty, \<open>nth_block_position\<close> reads past the end of the file when \<open>n\<close> is not the
  number of a slot.
\<close>

definition block_log_index_open :: "filesystem \<Rightarrow> path \<Rightarrow> error + bytes" where
  "block_log_index_open fs p =
     (case fs p of
        None \<Rightarrow> Inl FileNotFound
      | Some d \<Rightarrow> if length d mod 8 = 0 then Inr d else Inl IndexSizeError)"


definition index_num_blocks :: "bytes \<Rightarrow> int" where
  "index_num_blocks idx = int (length idx div 8)"

definition nth_block_position :: "bytes \<Rightarrow> u32 \<Rightarrow> error + u64" where
  "nth_block_position idx n = read_buffer_u64 idx (8 * unat n)"

text \<open>
  \<^verbatim>\<open>block_log_archive\<close>: both views of the \<^verbatim>\<open>blocks.log\<close> and \<^verbatim>\<open>blocks.index\<close> of a
  directory, which must agree on the number of blocks.
\<close>

record 'g block_log_archive =
  block_file_name :: path
  index_file_name :: path
  archive_log_data :: "'g block_log_data"
  archive_log_index :: bytes

definition block_log_archive_open ::
  "(bytes \<Rightarrow> error + ('g \<times> nat)) \<Rightarrow> filesystem \<Rightarrow> path \<Rightarrow> error + 'g block_log_archive" where
  "block_log_archive_open unpack_genesis fs block_dir =
     (let bf = path_join block_dir ''blocks.log'';
          xf = path_join block_dir ''blocks.index''
      in case block_log_data_open unpack_genesis fs bf of
           Inl e \<Rightarrow> Inl e
         | Inr (d, ds) \<Rightarrow>
             (case block_log_index_open fs xf of
                Inl e \<Rightarrow> Inl e
              | Inr idx \<Rightarrow>
                  (case num_blocks d of
                     Inl e \<Rightarrow> Inl e
                   | Inr log_num_blocks \<Rightarrow>
                       let index_num_blocks = (of_int (index_num_blocks idx) :: u32) in
                       if log_num_blocks = index_num_blocks
                       then Inr \<lparr>block_file_name = bf, index_file_name = xf,
                                 archive_log_data = d, archive_log_index = idx\<rparr>
                       else Inl BlockCountMismatch)))"

section \<open>Maintenance: trimming the end\<close>

text \<open>\<^verbatim>\<open>block_log::trim_blocklog_end\<close>; \<open>n\<close> is the last block to keep.\<close>

definition trim_blocklog_end ::
  "(bytes \<Rightarrow> error + ('g \<times> nat)) \<Rightarrow> filesystem \<Rightarrow> path \<Rightarrow> u32 \<Rightarrow> error + (int \<times> filesystem)" where
  "trim_blocklog_end unpack_genesis fs block_dir n =
     (case block_log_archive_open unpack_genesis fs block_dir of
        Inl e \<Rightarrow> Inl e
      | Inr archive \<Rightarrow>
          if n < data_first_block_num (archive_log_data archive) then Inr (1, fs)
          else
            (case last_block_num_of (archive_log_data archive) of
               Inl e \<Rightarrow> Inl e
             | Inr l \<Rightarrow>
                 if n > l then Inr (2, fs)
                 else
                   let to_trim_block_index = n + 1 - data_first_block_num (archive_log_data archive) in
                   case nth_block_position (archive_log_index archive) to_trim_block_index of
                     Inl e \<Rightarrow> Inl e
                   | Inr to_trim_block_position \<Rightarrow>
                       let index_file_size = unat to_trim_block_index * 8 in
                       (case resize_file fs (block_file_name archive)
                               (unat to_trim_block_position) of
                          Inl e \<Rightarrow> Inl e
                        | Inr fs1 \<Rightarrow>
                            (case resize_file fs1 (index_file_name archive) index_file_size of
                               Inl e \<Rightarrow> Inl e
                             | Inr fs2 \<Rightarrow> Inr (0, fs2)))))"

section \<open>The catalog: matching an index against its log\<close>

text \<open>
  \<^verbatim>\<open>block_log_catalog::index_matches_data\<close>. The index file is opened with \<^verbatim>\<open>fc::cfile\<close>;
  seeking 8 bytes back from its end fails on a shorter file.
\<close>

definition index_matches_data ::
  "filesystem \<Rightarrow> path \<Rightarrow> 'g block_log_data \<Rightarrow> error + bool" where
  "index_matches_data fs index_path log =
     (case fs index_path of
        None \<Rightarrow> Inr False
      | Some idx \<Rightarrow>
          (case num_blocks log of
             Inl e \<Rightarrow> Inl e
           | Inr nb \<Rightarrow>
               if length idx div 8 \<noteq> unat nb then
                 (if length idx < 8 then Inl StreamError
                  else
                    let p = (of_nat (le_nat (drop (length idx - 8) idx)) :: u64) in
                    case last_block_position log of
                      Inl e \<Rightarrow> Inl e
                    | Inr l \<Rightarrow> Inr (p = l))
               else Inr False))"

section \<open>The chain layer\<close>

text \<open>
  Blocks, headers, transactions and the genesis state belong to the chain layer, which
  the log sees through a few operations. A block is its header part \<open>'h\<close> (every field but
  the transactions) and its transactions; a transaction receipt is identified with its
  \<^verbatim>\<open>trx\<close> field, a \<^verbatim>\<open>std::variant<transaction_id_type, packed_transaction>\<close>. The decoders
  take the bytes at the cursor and give the value and the number of bytes consumed.
\<close>

datatype 'p trx = TrxId bytes | Packed 'p

record ('h, 'p) signed_block =
  header :: 'h
  transactions :: "'p trx list"

record ('h, 'p, 'g) chain_layer =
  header_block_num :: "'h \<Rightarrow> u32"
  calculate_id :: "'h \<Rightarrow> bytes"
  unpack_header :: "bytes \<Rightarrow> error + ('h \<times> nat)"
  unpack_block :: "bytes \<Rightarrow> byte \<Rightarrow> error + (('h, 'p) signed_block \<times> nat)"
  unpack_block_v0 :: "bytes \<Rightarrow> error + (('h, 'p) signed_block \<times> nat)"
  pack_block :: "('h, 'p) signed_block \<Rightarrow> byte \<Rightarrow> bytes"
  maximum_pruned_pack_size :: "('h, 'p) signed_block \<Rightarrow> byte \<Rightarrow> nat"
  pack_block_v0 :: "('h, 'p) signed_block \<Rightarrow> bytes option"
  ptx_id :: "'p \<Rightarrow> bytes"
  prune_all :: "'p \<Rightarrow> 'p"
  unpack_genesis :: "bytes \<Rightarrow> error + ('g \<times> nat)"
  pack_genesis :: "'g \<Rightarrow> bytes"
  compute_chain_id :: "'g \<Rightarrow> bytes"
  compression_type_count :: nat

definition block_num :: "('h, 'p, 'g) chain_layer \<Rightarrow> ('h, 'p) signed_block \<Rightarrow> u32" where
  "block_num cl b = header_block_num cl (header b)"

text \<open>\<^verbatim>\<open>block_log_preamble::chain_id\<close> and \<^verbatim>\<open>block_log_preamble::write_to\<close>.\<close>

definition preamble_chain_id :: "('g \<Rightarrow> bytes) \<Rightarrow> 'g block_log_preamble \<Rightarrow> bytes" where
  "preamble_chain_id compute p =
     (case chain_context p of ChainId c \<Rightarrow> c | Genesis g \<Rightarrow> compute g)"

definition write_to :: "('g \<Rightarrow> bytes) \<Rightarrow> 'g block_log_preamble \<Rightarrow> error + bytes" where
  "write_to pack_gen p =
     (if version p \<noteq> initial_version then
        Inr (le32 (version p) @ le32 (first_block_num p)
             @ (case chain_context p of ChainId c \<Rightarrow> c | Genesis g \<Rightarrow> pack_gen g)
             @ le64 npos)
      else
        (case chain_context p of
           Genesis g \<Rightarrow> Inr (le32 (version p) @ pack_gen g)
         | ChainId c \<Rightarrow> Inl BadVariantAccess))"

text \<open>
  \<^verbatim>\<open>pack(block, compression)\<close>: the buffer of a version-4 entry without its back-pointer. The
  block is packed into a buffer of \<^verbatim>\<open>maximum_pruned_pack_size\<close> bytes after the size and the
  tag; the rest of the buffer stays zero, and a block that does not fit overflows the
  stream.
\<close>

definition pack_entry ::
  "('h, 'p, 'g) chain_layer \<Rightarrow> ('h, 'p) signed_block \<Rightarrow> byte \<Rightarrow> error + bytes" where
  "pack_entry cl b c =
     (let padded_size = maximum_pruned_pack_size cl b c;
          buffer_size = padded_size + offset_to_block_start max_supported_version;
          sz = (of_nat (buffer_size + 8) :: u32);
          packed = pack_block cl b c
      in if length packed > padded_size then Inl StreamError
         else Inr (le32 sz @ [c] @ packed @ replicate (padded_size - length packed) 0))"

section \<open>The catalog of rotated segments\<close>

record mapped_type =
  last_block_num :: u32
  filename_base :: path

text \<open>
  The collection is a \<^verbatim>\<open>flat_map\<close>: a list of pairs kept in the order of its keys.
  \<open>active_index = None\<close> is \<^verbatim>\<open>npos\<close>; \<open>log_data\<close> and \<open>log_index\<close> are \<open>None\<close> while the
  mapped file is not open.
\<close>

record 'g block_log_catalog =
  archive_dir :: path
  max_retained_files :: nat
  collection :: "(u32 \<times> mapped_type) list"
  active_index :: "nat option"
  log_data :: "'g block_log_data option"
  log_index :: "bytes option"
  chain_id :: bytes

definition log_name :: "path \<Rightarrow> path" where
  "log_name base = base @ ''.log''"

definition index_name :: "path \<Rightarrow> path" where
  "index_name base = base @ ''.index''"

definition path_filename :: "path \<Rightarrow> string" where
  "path_filename p = rev (takeWhile (\<lambda>c. c \<noteq> CHR ''/'') (rev p))"

definition parent_path :: "path \<Rightarrow> path" where
  "parent_path p = rev (drop 1 (dropWhile (\<lambda>c. c \<noteq> CHR ''/'') (rev p)))"

text \<open>\<^verbatim>\<open>flat_map::emplace\<close>: insertion at the place of the key, unless the key is there.\<close>

fun emplace :: "u32 \<Rightarrow> mapped_type \<Rightarrow> (u32 \<times> mapped_type) list \<Rightarrow> (u32 \<times> mapped_type) list" where
  "emplace k v [] = [(k, v)]"
| "emplace k v ((k', v') # xs) =
     (if k = k' then (k', v') # xs
      else if k < k' then (k, v) # (k', v') # xs
      else (k', v') # emplace k v xs)"

text \<open>
  The loop of \<^verbatim>\<open>block_log_catalog::add\<close> over the segments to evict: each is deleted, or
  moved to the archive directory when there is one. A failed rename stops the loop; the
  file system reached is returned with the error.
\<close>

fun evict :: "path \<Rightarrow> filesystem \<Rightarrow> (u32 \<times> mapped_type) list \<Rightarrow> error option \<times> filesystem" where
  "evict ad fs [] = (None, fs)"
| "evict ad fs ((k, m) # rest) =
     (let name = filename_base m in
      if ad = [] then
        evict ad (remove_file (remove_file fs (log_name name)) (index_name name)) rest
      else
        let new_name = path_join ad (path_filename name) in
        case rename_file fs (log_name name) (log_name new_name) of
          Inl e \<Rightarrow> (Some e, fs)
        | Inr fs1 \<Rightarrow>
            (case rename_file fs1 (index_name name) (index_name new_name) of
               Inl e \<Rightarrow> (Some e, fs1)
             | Inr fs2 \<Rightarrow> evict ad fs2 rest))"

definition catalog_add ::
  "filesystem \<Rightarrow> 'g block_log_catalog \<Rightarrow> u32 \<Rightarrow> u32 \<Rightarrow> path
     \<Rightarrow> error option \<times> filesystem \<times> 'g block_log_catalog" where
  "catalog_add fs c start_block_num end_block_num base =
     (let record_new = (\<lambda>c'.
            if max_retained_files c' > 0
            then c'\<lparr>collection :=
                     emplace start_block_num
                       \<lparr>last_block_num = end_block_num, filename_base = base\<rparr> (collection c')\<rparr>
            else c')
      in if length (collection c) \<ge> max_retained_files c then
           let items_to_erase =
                 (if max_retained_files c > 0
                  then length (collection c) - max_retained_files c + 1
                  else length (collection c))
           in case evict (archive_dir c) fs (take items_to_erase (collection c)) of
                (Some e, fs') \<Rightarrow> (Some e, fs', c)
              | (None, fs') \<Rightarrow>
                  (None, fs',
                   record_new
                     (c\<lparr>collection := drop items_to_erase (collection c),
                        active_index :=
                          (case active_index c of
                             None \<Rightarrow> None
                           | Some i \<Rightarrow> if i < items_to_erase then None
                                       else Some (i - items_to_erase))\<rparr>))
         else (None, fs, record_new c))"

section \<open>The log store\<close>

text \<open>
  \<^verbatim>\<open>block_log_impl\<close>, together with the file system it works on. The two files are held
  open: \<open>file_content\<close> is what a read of the whole file gives (nothing when the file is
  missing).
\<close>

record ('h, 'p, 'g) block_log_impl =
  head :: "('h, 'p) signed_block option"
  catalog :: "'g block_log_catalog"
  block_file :: path
  index_file :: path
  genesis_written_to_block_log :: bool
  preamble :: "'g block_log_preamble"
  stride :: nat
  fs :: filesystem

definition file_content :: "filesystem \<Rightarrow> path \<Rightarrow> bytes" where
  "file_content f p = (case f p of None \<Rightarrow> [] | Some d \<Rightarrow> d)"


text \<open>Decimal printing, for \<^verbatim>\<open>snprintf\<close> with \<^verbatim>\<open>%d\<close>.\<close>

function dec_nat :: "nat \<Rightarrow> string" where
  "dec_nat n =
     (if n < 10 then [''0123456789'' ! n]
      else dec_nat (n div 10) @ [''0123456789'' ! (n mod 10)])"
  by pat_completeness auto
termination
  by (relation "measure id") auto

declare dec_nat.simps [simp del]

definition dec_int :: "int \<Rightarrow> string" where
  "dec_int i = (if i < 0 then ''-'' @ dec_nat (nat (- i)) else dec_nat (nat i))"

text \<open>
  \<^verbatim>\<open>write_log_entry\<close>: the entry and its position go to the end of the log, the position to
  the end of the index. Both conversions of the legacy format are checked before anything
  is written.
\<close>

definition write_log_entry ::
  "('h, 'p, 'g) chain_layer \<Rightarrow> ('h, 'p, 'g) block_log_impl \<Rightarrow> ('h, 'p) signed_block \<Rightarrow> byte
     \<Rightarrow> (error + u64) \<times> ('h, 'p, 'g) block_log_impl" where
  "write_log_entry cl st b segment_compression =
     (let p = (of_nat (length (file_content (fs st) (block_file st))) :: u64);
          buffer =
            (if version (preamble st) \<ge> pruned_transaction_version
             then pack_entry cl b segment_compression
             else
               (case pack_block_v0 cl b of
                  None \<Rightarrow> Inl AppendFail
                | Some bs \<Rightarrow> if segment_compression = 0 then Inr bs else Inl AppendFail))
      in case buffer of
           Inl e \<Rightarrow> (Inl e, st)
         | Inr bs \<Rightarrow>
             (Inr p,
              st\<lparr>fs := ((fs st)
                 (block_file st \<mapsto> file_content (fs st) (block_file st) @ bs @ le64 p))
                 (index_file st \<mapsto> file_content (fs st) (index_file st) @ le64 p)\<rparr>))"

text \<open>
  \<^verbatim>\<open>split_log\<close>. The name of the segment is printed with \<^verbatim>\<open>%d\<close>, that is, from the block
  numbers read as signed; the new preamble takes the chain id of the old one.
\<close>

definition segment_name :: "u32 \<Rightarrow> u32 \<Rightarrow> string" where
  "segment_name a b = ''blocks-'' @ dec_int (sint a) @ ''-'' @ dec_int (sint b)"

definition split_log ::
  "('h, 'p, 'g) chain_layer \<Rightarrow> ('h, 'p, 'g) block_log_impl
     \<Rightarrow> error option \<times> ('h, 'p, 'g) block_log_impl" where
  "split_log cl st =
     (case head st of
        None \<Rightarrow> (Some NullPointer, st)
      | Some h \<Rightarrow>
          let data_dir = parent_path (block_file st);
              filename = segment_name (first_block_num (preamble st)) (block_num cl h);
              base = path_join data_dir filename
          in case catalog_add (fs st) (catalog st) (first_block_num (preamble st))
                    (block_num cl h) base of
               (Some e, fs1, c1) \<Rightarrow> (Some e, st\<lparr>fs := fs1, catalog := c1\<rparr>)
             | (None, fs1, c1) \<Rightarrow>
                 (case rename_file fs1 (block_file st) (log_name base) of
                    Inl e \<Rightarrow> (Some e, st\<lparr>fs := fs1, catalog := c1\<rparr>)
                  | Inr fs2 \<Rightarrow>
                      (case rename_file fs2 (index_file st) (index_name base) of
                         Inl e \<Rightarrow> (Some e, st\<lparr>fs := fs2, catalog := c1\<rparr>)
                       | Inr fs3 \<Rightarrow>
                           let fs4 = (fs3(block_file st \<mapsto> []))(index_file st \<mapsto> []);
                               p = \<lparr>version = max_supported_version,
                                    first_block_num = block_num cl h + 1,
                                    chain_context =
                                      ChainId (preamble_chain_id (compute_chain_id cl)
                                                 (preamble st))\<rparr>
                           in case write_to (pack_genesis cl) p of
                                Inl e \<Rightarrow>
                                  (Some e, st\<lparr>fs := fs4, catalog := c1, preamble := p\<rparr>)
                              | Inr bs \<Rightarrow>
                                  (None, st\<lparr>fs := fs4(block_file st \<mapsto> bs),
                                             catalog := c1, preamble := p\<rparr>))))"

text \<open>
  \<^verbatim>\<open>block_log_impl::append\<close>. The result is paired with the state reached, also when an
  exception leaves the function. The position of the index file after \<^verbatim>\<open>seek_end(0)\<close> is
  its length; the subtraction of the block numbers is done in 32 bits.
\<close>

definition append ::
  "('h, 'p, 'g) chain_layer \<Rightarrow> ('h, 'p, 'g) block_log_impl \<Rightarrow> ('h, 'p) signed_block \<Rightarrow> byte
     \<Rightarrow> (error + u64) \<times> ('h, 'p, 'g) block_log_impl" where
  "append cl st b segment_compression =
     (if \<not> genesis_written_to_block_log st then (Inl AppendBeforeReset, st)
      else if length (file_content (fs st) (index_file st))
                \<noteq> 8 * unat (block_num cl b - first_block_num (preamble st))
      then (Inl IndexDesync, st)
      else
        (case write_log_entry cl st b segment_compression of
           (Inl e, st1) \<Rightarrow> (Inl e, st1)
         | (Inr p, st1) \<Rightarrow>
             let st2 = st1\<lparr>head := Some b\<rparr> in
             if stride st2 = 0 then (Inl DivisionByZero, st2)
             else if unat (block_num cl b) mod stride st2 = 0 then
               (case split_log cl st2 of
                  (Some e, st3) \<Rightarrow> (Inl e, st3)
                | (None, st3) \<Rightarrow> (Inr p, st3))
             else (Inr p, st2)))"

text \<open>\<^verbatim>\<open>block_log::first_block_num\<close>.\<close>

definition block_log_first_block_num :: "('h, 'p, 'g) block_log_impl \<Rightarrow> u32" where
  "block_log_first_block_num st =
     (if collection (catalog st) \<noteq> [] then fst (hd (collection (catalog st)))
      else first_block_num (preamble st))"

section \<open>Reading by block number\<close>

text \<open>
  \<^verbatim>\<open>get_block_pos\<close>: \<^verbatim>\<open>npos\<close> outside the range of the live log, otherwise the position
  read from the live index.
\<close>

definition get_block_pos ::
  "('h, 'p, 'g) chain_layer \<Rightarrow> ('h, 'p, 'g) block_log_impl \<Rightarrow> u32 \<Rightarrow> error + u64" where
  "get_block_pos cl st n =
     (case head st of
        None \<Rightarrow> Inr npos
      | Some h \<Rightarrow>
          if \<not> (n \<le> block_num cl h \<and> n \<ge> first_block_num (preamble st)) then Inr npos
          else
            (case ds_read_u64 \<lparr>buf = file_content (fs st) (index_file st),
                                cur = 8 * unat (n - first_block_num (preamble st))\<rparr> of
               Inl e \<Rightarrow> Inl e
             | Inr (p, ds) \<Rightarrow> Inr p))"

text \<open>\<^verbatim>\<open>read_block_id\<close>: the header at the cursor, after the size and tag of a version-4 entry.\<close>

definition read_block_id ::
  "('h, 'p, 'g) chain_layer \<Rightarrow> datastream \<Rightarrow> u32 \<Rightarrow> u32 \<Rightarrow> error + bytes" where
  "read_block_id cl ds v expect_block_num =
     (case (if v \<ge> pruned_transaction_version then
              (case ds_read_u32 ds of
                 Inl e \<Rightarrow> Inl e
               | Inr (sz, ds1) \<Rightarrow>
                   (case ds_read_u8 ds1 of
                      Inl e \<Rightarrow> Inl e
                    | Inr (c, ds2) \<Rightarrow> if c = 0 then Inr ds2 else Inl MalformedEntry))
            else Inr ds) of
        Inl e \<Rightarrow> Inl e
      | Inr ds' \<Rightarrow>
          (case unpack_header cl (remaining ds') of
             Inl e \<Rightarrow> Inl e
           | Inr (bh, k) \<Rightarrow>
               if header_block_num cl bh = expect_block_num then Inr (calculate_id cl bh)
               else Inl WrongBlock))"

text \<open>
  \<^verbatim>\<open>block_log_catalog::set_active_item\<close>. \<open>upper_bound_index\<close> is the ordinal of the first
  segment whose key is greater than the block number. Every exception is caught: the
  active ordinal is reset and the result is \<open>false\<close>.
\<close>

definition upper_bound_index :: "(u32 \<times> mapped_type) list \<Rightarrow> u32 \<Rightarrow> nat" where
  "upper_bound_index coll n = length (takeWhile (\<lambda>(k, m). k \<le> n) coll)"

definition set_active_item ::
  "(bytes \<Rightarrow> error + ('g \<times> nat)) \<Rightarrow> filesystem \<Rightarrow> 'g block_log_catalog \<Rightarrow> u32
     \<Rightarrow> bool \<times> 'g block_log_catalog" where
  "set_active_item unpack_gen f c n =
     (let search = (\<lambda>u :: unit.
            if collection c = [] \<or> n < fst (hd (collection c)) then (False, c)
            else
              let i = upper_bound_index (collection c) n - 1;
                  it = collection c ! i
              in if n \<le> last_block_num (snd it) then
                   (let name = filename_base (snd it) in
                    case block_log_data_open unpack_gen f (log_name name) of
                      Inl e \<Rightarrow> (False, c\<lparr>active_index := None, log_data := None\<rparr>)
                    | Inr (d, ds) \<Rightarrow>
                        (case block_log_index_open f (index_name name) of
                           Inl e \<Rightarrow>
                             (False, c\<lparr>active_index := None, log_data := Some d,
                                        log_index := f (index_name name)\<rparr>)
                         | Inr idx \<Rightarrow>
                             (True, c\<lparr>active_index := Some i, log_data := Some d,
                                       log_index := Some idx\<rparr>)))
                 else (False, c))
      in case active_index c of
           None \<Rightarrow> search ()
         | Some a \<Rightarrow>
             if \<not> a < length (collection c) then (False, c\<lparr>active_index := None\<rparr>)
             else
               let active_item = collection c ! a in
               if fst active_item \<le> n \<and> n \<le> last_block_num (snd active_item) then
                 (case log_index c of
                    Some idx \<Rightarrow> (True, c)
                  | None \<Rightarrow>
                      (case block_log_index_open f (index_name (filename_base (snd active_item))) of
                         Inl e \<Rightarrow>
                           (False, c\<lparr>active_index := None,
                                      log_index :=
                                        f (index_name (filename_base (snd active_item)))\<rparr>)
                       | Inr idx \<Rightarrow> (True, c\<lparr>log_index := Some idx\<rparr>)))
               else search ())"

text \<open>\<^verbatim>\<open>block_log_catalog::datastream_for_block\<close>, on the segment that is bound.\<close>

definition datastream_for_block ::
  "'g block_log_catalog \<Rightarrow> u32 \<Rightarrow> error + (datastream \<times> u32)" where
  "datastream_for_block c n =
     (case (log_data c, log_index c) of
        (Some d, Some idx) \<Rightarrow>
          (case nth_block_position idx (n - data_first_block_num d) of
             Inl e \<Rightarrow> Inl e
           | Inr p \<Rightarrow> Inr (\<lparr>buf = data d, cur = unat p\<rparr>, data_version d))
      | _ \<Rightarrow> Inl NullPointer)"

text \<open>
  \<^verbatim>\<open>block_log_impl::read_block_id_by_num\<close>. A default-constructed block id is the digest
  of 32 zero bytes.
\<close>

definition empty_block_id :: bytes where
  "empty_block_id = replicate 32 0"

definition read_block_id_by_num ::
  "('h, 'p, 'g) chain_layer \<Rightarrow> ('h, 'p, 'g) block_log_impl \<Rightarrow> u32
     \<Rightarrow> error + (bytes \<times> ('h, 'p, 'g) block_log_impl)" where
  "read_block_id_by_num cl st n =
     (case get_block_pos cl st n of
        Inl e \<Rightarrow> Inl e
      | Inr p \<Rightarrow>
          if p \<noteq> npos then
            (case read_block_id cl
                    \<lparr>buf = file_content (fs st) (block_file st), cur = unat p\<rparr>
                    (version (preamble st)) n of
               Inl e \<Rightarrow> Inl e
             | Inr bid \<Rightarrow> Inr (bid, st))
          else
            (case set_active_item (unpack_genesis cl) (fs st) (catalog st) n of
               (True, c) \<Rightarrow>
                 (case datastream_for_block c n of
                    Inl e \<Rightarrow> Inl e
                  | Inr (ds, v) \<Rightarrow>
                      (case read_block_id cl ds v n of
                         Inl e \<Rightarrow> Inl e
                       | Inr bid \<Rightarrow> Inr (bid, st\<lparr>catalog := c\<rparr>)))
             | (False, c) \<Rightarrow> Inr (empty_block_id, st\<lparr>catalog := c\<rparr>)))"

section \<open>Pruning transactions\<close>




section \<open>Example files\<close>

text \<open>
  A version-4 log that starts at block 2 and holds this one block: the preamble (version,
  first block number, a chain id of 32 bytes, the totem) and at position 48 an entry of
  31 bytes, with the number 1 of the previous block at bytes 14 to 17 of its header and the
  back-pointer 48. Its index holds the position 48.
\<close>

definition example_chain_id :: bytes where
  "example_chain_id =
     [7,7,7,7,7,7,7,7, 7,7,7,7,7,7,7,7, 7,7,7,7,7,7,7,7, 7,7,7,7,7,7,7,7]"

definition example_log :: bytes where
  "example_log =
     [4,0,0,0, 2,0,0,0,
      7,7,7,7,7,7,7,7, 7,7,7,7,7,7,7,7, 7,7,7,7,7,7,7,7, 7,7,7,7,7,7,7,7,
      255,255,255,255,255,255,255,255,
      31,0,0,0, 0,
      0,0,0,0, 0,0,0,0,0,0,0,0, 0,0,
      0,0,0,1,
      48,0,0,0,0,0,0,0]"

definition example_index :: bytes where
  "example_index = [48,0,0,0,0,0,0,0]"

definition example_fs :: filesystem where
  "example_fs = [''d/blocks.log'' \<mapsto> example_log, ''d/blocks.index'' \<mapsto> example_index]"

definition example_data :: "unit block_log_data" where
  "example_data =
     \<lparr>data = example_log,
      preamble = \<lparr>version = 4, first_block_num = 2, chain_context = ChainId example_chain_id\<rparr>,
      first_block_pos = 48\<rparr>"

definition no_genesis :: "bytes \<Rightarrow> error + (unit \<times> nat)" where
  "no_genesis bs = Inl DecodeError"

text \<open>An example decoder of the genesis state: the state is one byte.\<close>

definition example_unpack_genesis :: "bytes \<Rightarrow> error + (byte \<times> nat)" where
  "example_unpack_genesis bs = (case bs of [] \<Rightarrow> Inl DecodeError | b # rest \<Rightarrow> Inr (b, 1))"

text \<open>
  An example chain layer. A header is its block number, packed as 14 zero bytes followed
  by the number of the previous block, big-endian, as the first bytes of \<^verbatim>\<open>previous\<close>. A
  packed transaction is a one-byte id and the flag of having been pruned; a block is
  packed as its header, the number of its transactions and two bytes for each. There is no
  legacy format and the genesis state is empty.
\<close>

definition be32 :: "u32 \<Rightarrow> bytes" where
  "be32 w = rev (le32 w)"

fun example_pack_trx :: "(byte \<times> bool) trx \<Rightarrow> bytes" where
  "example_pack_trx (TrxId t) = [0, of_nat (le_nat t)]"
| "example_pack_trx (Packed (i, pruned)) = [if pruned then 2 else 1, i]"

fun example_unpack_trxs :: "nat \<Rightarrow> bytes \<Rightarrow> (byte \<times> bool) trx list option" where
  "example_unpack_trxs 0 bs = Some []"
| "example_unpack_trxs (Suc k) (t # i # bs) =
     (case example_unpack_trxs k bs of
        None \<Rightarrow> None
      | Some ts \<Rightarrow>
          Some ((if t = 0 then TrxId [i] else Packed (i, t = 2)) # ts))"
| "example_unpack_trxs (Suc k) bs = None"

definition example_pack_block :: "(u32, byte \<times> bool) signed_block \<Rightarrow> byte \<Rightarrow> bytes" where
  "example_pack_block b c =
     replicate 14 0 @ be32 (header b - 1) @ [of_nat (length (transactions b))]
       @ concat (map example_pack_trx (transactions b))"

definition example_unpack_header :: "bytes \<Rightarrow> error + (u32 \<times> nat)" where
  "example_unpack_header bs =
     (if length bs < 18 then Inl DecodeError
      else Inr (of_nat (le_nat (rev (take 4 (drop 14 bs)))) + 1, 18))"

definition example_unpack_block ::
  "bytes \<Rightarrow> byte \<Rightarrow> error + ((u32, byte \<times> bool) signed_block \<times> nat)" where
  "example_unpack_block bs c =
     (case example_unpack_header bs of
        Inl e \<Rightarrow> Inl e
      | Inr (h, k) \<Rightarrow>
          (case drop 18 bs of
             [] \<Rightarrow> Inl DecodeError
           | cnt # rest \<Rightarrow>
               (case example_unpack_trxs (unat cnt) rest of
                  None \<Rightarrow> Inl DecodeError
                | Some ts \<Rightarrow>
                    Inr (\<lparr>header = h, transactions = ts\<rparr>, 19 + 2 * unat cnt))))"

definition example_chain :: "(u32, byte \<times> bool, unit) chain_layer" where
  "example_chain =
     \<lparr>header_block_num = (\<lambda>h. h),
      calculate_id = (\<lambda>h. be32 h @ replicate 28 0),
      unpack_header = example_unpack_header,
      unpack_block = example_unpack_block,
      unpack_block_v0 = (\<lambda>bs. Inl DecodeError),
      pack_block = example_pack_block,
      maximum_pruned_pack_size = (\<lambda>b c. length (example_pack_block b c) + 2),
      pack_block_v0 = (\<lambda>b. None),
      ptx_id = (\<lambda>(i, pruned). [i]),
      prune_all = (\<lambda>(i, pruned). (i, True)),
      unpack_genesis = (\<lambda>bs. Inl DecodeError),
      pack_genesis = (\<lambda>g. []),
      compute_chain_id = (\<lambda>g. example_chain_id),
      compression_type_count = 2\<rparr>"





definition example_catalog :: "unit block_log_catalog" where
  "example_catalog =
     \<lparr>archive_dir = [], max_retained_files = 10, collection = [], active_index = None,
      log_data = None, log_index = None, chain_id = []\<rparr>"

definition example_store ::
  "bytes \<Rightarrow> bytes \<Rightarrow> (u32, byte \<times> bool, unit) block_log_impl" where
  "example_store lg ix =
     \<lparr>head = None, catalog = example_catalog,
      block_file = ''d/blocks.log'', index_file = ''d/blocks.index'',
      genesis_written_to_block_log = True,
      preamble = \<lparr>version = 4, first_block_num = 2, chain_context = ChainId example_chain_id\<rparr>,
      stride = 1000,
      fs = [''d/blocks.log'' \<mapsto> lg, ''d/blocks.index'' \<mapsto> ix]\<rparr>"


text \<open>
  The paths the eviction of a segment touches: its two files, and their destinations in
  the archive directory.
\<close>

definition segment_paths :: "path \<Rightarrow> mapped_type \<Rightarrow> path list" where
  "segment_paths ad m =
     [log_name (filename_base m), index_name (filename_base m),
      log_name (path_join ad (path_filename (filename_base m))),
      index_name (path_join ad (path_filename (filename_base m)))]"

text \<open>
  The example store with a stride \<open>s\<close> and a catalog that retains \<open>m\<close> segments, and the
  block 3 that is appended to it.
\<close>

definition example_rotating_store ::
  "nat \<Rightarrow> nat \<Rightarrow> (u32, byte \<times> bool, unit) block_log_impl" where
  "example_rotating_store s m =
     (example_store example_log example_index)
       \<lparr>stride := s, catalog := example_catalog\<lparr>max_retained_files := m\<rparr>\<rparr>"

definition example_block_3 :: "(u32, byte \<times> bool) signed_block" where
  "example_block_3 = \<lparr>header = 3, transactions = []\<rparr>"





section \<open>Verified properties\<close>

subsection \<open>The preamble\<close>

lemma supported_iff: "is_supported_version v \<longleftrightarrow> 1 \<le> v \<and> v \<le> 4"
  by (auto simp: is_supported_version_def clamp_def min_supported_version_def max_supported_version_def
      initial_version_def pruned_transaction_version_def word_le_nat_alt word_less_nat_alt)

lemma neither_iff: "\<not> contains_genesis_state v f \<and> \<not> contains_chain_id v f \<longleftrightarrow> 3 \<le> v \<and> f = 0"
  by (auto simp: contains_genesis_state_def contains_chain_id_def genesis_state_or_chain_id_version_def
     word_le_nat_alt word_less_nat_alt word_unat_eq_iff)

lemma genesis_iff: "contains_genesis_state v f \<longleftrightarrow> v < 3 \<or> f = 1"
  by (simp add: contains_genesis_state_def genesis_state_or_chain_id_version_def)

lemma chain_id_iff: "contains_chain_id v f \<longleftrightarrow> 3 \<le> v \<and> 1 < f"
  by (simp add: contains_chain_id_def genesis_state_or_chain_id_version_def)

lemma read_chain_context_variant:
  "read_chain_context ug v f ds = Inr (ctx, ds') \<Longrightarrow>
     (is_genesis ctx \<longleftrightarrow> v < 3 \<or> f = 1) \<and> (is_chain_id ctx \<longleftrightarrow> 3 \<le> v \<and> 1 < f)"
  by (auto simp: read_chain_context_def genesis_iff chain_id_iff word_le_nat_alt word_less_nat_alt
      split: if_splits sum.splits)

text \<open>
  Claim C5 (amended). For a supported version \<open>v\<close> (1 to 4) and the first block number \<open>f\<close>
  read after it (1 for version 1, which does not store it), \<open>read_from\<close> decodes the chain
  context as a genesis state when \<open>v = 1\<close>, when \<open>v = 2\<close> whatever \<open>f\<close> is, and when \<open>v \<ge> 3\<close>
  with \<open>f = 1\<close>; as a chain id when \<open>v \<ge> 3\<close> with \<open>f > 1\<close>; and it fails with
  \<open>MalformedPreamble\<close> when \<open>v \<ge> 3\<close> with \<open>f = 0\<close>, the one case in which the code finds
  neither variant. The first three conjuncts give the decoded preamble when the bytes
  that follow decode (for \<open>v \<ge> 2\<close>, with the totem after them); the last one says that
  every preamble that is returned has the variant of this table.
\<close>

theorem read_from_chain_context:
  assumes hv: "ds_read_u32 ds = Inr (v, ds1)"
      and sup: "1 \<le> v" "v \<le> 4"
      and hf: "(if v \<noteq> 1 then ds_read_u32 ds1 else Inr (1, ds1)) = Inr (f, ds2)"
  shows "(v = 1 \<and> ug (remaining ds2) = Inr (g, n) \<longrightarrow>
            read_from ug ds =
              Inr (\<lparr>version = 1, first_block_num = 1, chain_context = Genesis g\<rparr>, ds_skip ds2 n))
       \<and> (2 \<le> v \<and> (v = 2 \<or> f = 1) \<and> ug (remaining ds2) = Inr (g, n)
            \<and> ds_read_u64 (ds_skip ds2 n) = Inr (npos, ds4) \<longrightarrow>
            read_from ug ds =
              Inr (\<lparr>version = v, first_block_num = f, chain_context = Genesis g\<rparr>, ds4))
       \<and> (3 \<le> v \<and> 1 < f \<and> ds_read ds2 sizeof_chain_id = Inr (cid, ds3)
            \<and> ds_read_u64 ds3 = Inr (npos, ds4) \<longrightarrow>
            read_from ug ds =
              Inr (\<lparr>version = v, first_block_num = f, chain_context = ChainId cid\<rparr>, ds4))
       \<and> (3 \<le> v \<and> f = 0 \<longrightarrow> read_from ug ds = Inl MalformedPreamble)
       \<and> (\<forall>p r. read_from ug ds = Inr (p, r) \<longrightarrow>
            version p = v \<and> first_block_num p = f
            \<and> (v = 1 \<longrightarrow> f = 1)
            \<and> (is_genesis (chain_context p) \<longleftrightarrow> v \<le> 2 \<or> f = 1)
            \<and> (is_chain_id (chain_context p) \<longleftrightarrow> 3 \<le> v \<and> 1 < f))"
proof -
  have v0: "v > 0" using sup(1) by (simp add: word_le_nat_alt word_less_nat_alt)
  have vs: "is_supported_version v" using sup by (simp add: supported_iff)
  have v2: "v \<le> 2 \<longleftrightarrow> v < 3" by (auto simp: word_le_nat_alt word_less_nat_alt)
  have rf: "read_from ug ds =
      (case read_chain_context ug v f ds2 of
         Inl e \<Rightarrow> Inl e
       | Inr (ctx, ds3) \<Rightarrow>
           if v \<noteq> 1 then
             (case ds_read_u64 ds3 of
                Inl e \<Rightarrow> Inl e
              | Inr (t, ds4) \<Rightarrow>
                  if t = npos
                  then Inr (\<lparr>version = v, first_block_num = f, chain_context = ctx\<rparr>, ds4)
                  else Inl MalformedPreamble)
           else Inr (\<lparr>version = v, first_block_num = f, chain_context = ctx\<rparr>, ds3))"
    using hv hf v0 vs by (simp add: read_from_def initial_version_def Let_def split: sum.splits)
  have c1: "v = 1 \<and> ug (remaining ds2) = Inr (g, n) \<longrightarrow>
            read_from ug ds =
              Inr (\<lparr>version = 1, first_block_num = 1, chain_context = Genesis g\<rparr>, ds_skip ds2 n)"
    using hf by (auto simp: rf read_chain_context_def genesis_iff)
  have c2: "2 \<le> v \<and> (v = 2 \<or> f = 1) \<and> ug (remaining ds2) = Inr (g, n)
            \<and> ds_read_u64 (ds_skip ds2 n) = Inr (npos, ds4) \<longrightarrow>
            read_from ug ds =
              Inr (\<lparr>version = v, first_block_num = f, chain_context = Genesis g\<rparr>, ds4)"
    by (auto simp: rf read_chain_context_def genesis_iff word_le_nat_alt)
  have c3: "3 \<le> v \<and> 1 < f \<and> ds_read ds2 sizeof_chain_id = Inr (cid, ds3)
            \<and> ds_read_u64 ds3 = Inr (npos, ds4) \<longrightarrow>
            read_from ug ds =
              Inr (\<lparr>version = v, first_block_num = f, chain_context = ChainId cid\<rparr>, ds4)"
    by (auto simp: rf read_chain_context_def genesis_iff chain_id_iff word_le_nat_alt word_less_nat_alt)
  have c4: "3 \<le> v \<and> f = 0 \<longrightarrow> read_from ug ds = Inl MalformedPreamble"
  proof
    assume "3 \<le> v \<and> f = 0"
    then have "\<not> contains_genesis_state v f \<and> \<not> contains_chain_id v f"
      by (simp only: neither_iff)
    then show "read_from ug ds = Inl MalformedPreamble"
      by (simp add: rf read_chain_context_def)
  qed
  have c5: "\<forall>p r. read_from ug ds = Inr (p, r) \<longrightarrow>
            version p = v \<and> first_block_num p = f
            \<and> (v = 1 \<longrightarrow> f = 1)
            \<and> (is_genesis (chain_context p) \<longleftrightarrow> v \<le> 2 \<or> f = 1)
            \<and> (is_chain_id (chain_context p) \<longleftrightarrow> 3 \<le> v \<and> 1 < f)"
  proof (intro allI impI)
    fix p r assume a: "read_from ug ds = Inr (p, r)"
    then obtain ctx ds3 where rc: "read_chain_context ug v f ds2 = Inr (ctx, ds3)"
      by (auto simp: rf split: sum.splits)
    from a rc have p: "p = \<lparr>version = v, first_block_num = f, chain_context = ctx\<rparr>"
      by (auto simp: rf split: sum.splits if_splits)
    have "v = 1 \<longrightarrow> f = 1" using hf by auto
    with read_chain_context_variant[OF rc] p v2
    show "version p = v \<and> first_block_num p = f
            \<and> (v = 1 \<longrightarrow> f = 1)
            \<and> (is_genesis (chain_context p) \<longleftrightarrow> v \<le> 2 \<or> f = 1)
            \<and> (is_chain_id (chain_context p) \<longleftrightarrow> 3 \<le> v \<and> 1 < f)" by simp
  qed
  from c1 c2 c3 c4 c5 show ?thesis by blast
qed


theorem read_from_chain_context_witness:
  "read_from example_unpack_genesis
       \<lparr>buf = [4,0,0,0, 2,0,0,0, 7,7,7,7,7,7,7,7, 7,7,7,7,7,7,7,7, 7,7,7,7,7,7,7,7, 7,7,7,7,7,7,7,7, 255,255,255,255,255,255,255,255], cur = 0\<rparr>
     = Inr (\<lparr>version = 4, first_block_num = 2, chain_context = ChainId ([7,7,7,7,7,7,7,7, 7,7,7,7,7,7,7,7, 7,7,7,7,7,7,7,7, 7,7,7,7,7,7,7,7])\<rparr>,
            \<lparr>buf = [4,0,0,0, 2,0,0,0, 7,7,7,7,7,7,7,7, 7,7,7,7,7,7,7,7, 7,7,7,7,7,7,7,7, 7,7,7,7,7,7,7,7, 255,255,255,255,255,255,255,255], cur = 48\<rparr>)
   \<and> read_from example_unpack_genesis
       \<lparr>buf = [3,0,0,0, 0,0,0,0], cur = 0\<rparr> = Inl MalformedPreamble
   \<and> read_from example_unpack_genesis
       \<lparr>buf = [1,0,0,0, 9], cur = 0\<rparr>
     = Inr (\<lparr>version = 1, first_block_num = 1, chain_context = Genesis 9\<rparr>,
            \<lparr>buf = [1,0,0,0, 9], cur = 5\<rparr>)
   \<and> read_from example_unpack_genesis
       \<lparr>buf = [2,0,0,0, 0,0,0,0, 9, 255,255,255,255,255,255,255,255], cur = 0\<rparr>
     = Inr (\<lparr>version = 2, first_block_num = 0, chain_context = Genesis 9\<rparr>,
            \<lparr>buf = [2,0,0,0, 0,0,0,0, 9, 255,255,255,255,255,255,255,255], cur = 17\<rparr>)"
proof -
  have le4: "(1::u32) \<le> 4" "(4::u32) \<le> 4" "(1::u32) \<le> 3" "(3::u32) \<le> 4" "(1::u32) \<le> 1"
    "(1::u32) \<le> 2" "(2::u32) \<le> 4"
    by simp_all
  let ?b = "[4,0,0,0, 2,0,0,0, 7,7,7,7,7,7,7,7, 7,7,7,7,7,7,7,7, 7,7,7,7,7,7,7,7, 7,7,7,7,7,7,7,7, 255,255,255,255,255,255,255,255] :: bytes"
  have a1: "ds_read_u32 \<lparr>buf = ?b, cur = 0\<rparr> = Inr (4, \<lparr>buf = ?b, cur = 4\<rparr>)"
    by (simp add: ds_read_u32_def ds_read_def le_nat_def)
  have a2: "(if (4::u32) \<noteq> 1 then ds_read_u32 \<lparr>buf = ?b, cur = 4\<rparr> else Inr (1, \<lparr>buf = ?b, cur = 4\<rparr>))
             = Inr (2, \<lparr>buf = ?b, cur = 8\<rparr>)"
    by (simp add: ds_read_u32_def ds_read_def le_nat_def)
  have a3: "ds_read \<lparr>buf = ?b, cur = 8\<rparr> sizeof_chain_id = Inr ([7,7,7,7,7,7,7,7, 7,7,7,7,7,7,7,7, 7,7,7,7,7,7,7,7, 7,7,7,7,7,7,7,7], \<lparr>buf = ?b, cur = 40\<rparr>)"
    by (simp add: ds_read_def sizeof_chain_id_def)
  have a4: "ds_read_u64 \<lparr>buf = ?b, cur = 40\<rparr> = Inr (npos, \<lparr>buf = ?b, cur = 48\<rparr>)"
    by (simp add: ds_read_u64_def ds_read_def le_nat_def npos_def)
  have w1: "read_from example_unpack_genesis \<lparr>buf = ?b, cur = 0\<rparr>
     = Inr (\<lparr>version = 4, first_block_num = 2, chain_context = ChainId ([7,7,7,7,7,7,7,7, 7,7,7,7,7,7,7,7, 7,7,7,7,7,7,7,7, 7,7,7,7,7,7,7,7])\<rparr>,
            \<lparr>buf = ?b, cur = 48\<rparr>)"
    by (rule mp [OF read_from_chain_context [OF a1 le4(1) le4(2) a2, THEN conjunct2,
            THEN conjunct2, THEN conjunct1]], intro conjI, simp, simp, rule a3, rule a4)
  let ?c = "[3,0,0,0, 0,0,0,0] :: bytes"
  have b1: "ds_read_u32 \<lparr>buf = ?c, cur = 0\<rparr> = Inr (3, \<lparr>buf = ?c, cur = 4\<rparr>)"
    by (simp add: ds_read_u32_def ds_read_def le_nat_def)
  have b2: "(if (3::u32) \<noteq> 1 then ds_read_u32 \<lparr>buf = ?c, cur = 4\<rparr> else Inr (1, \<lparr>buf = ?c, cur = 4\<rparr>))
             = Inr (0, \<lparr>buf = ?c, cur = 8\<rparr>)"
    by (simp add: ds_read_u32_def ds_read_def le_nat_def)
  have w2: "read_from example_unpack_genesis \<lparr>buf = ?c, cur = 0\<rparr> = Inl MalformedPreamble"
    by (rule mp [OF read_from_chain_context [OF b1 le4(3) le4(4) b2, THEN conjunct2,
            THEN conjunct2, THEN conjunct2, THEN conjunct1]]) simp
  let ?d = "[1,0,0,0, 9] :: bytes"
  have c1: "ds_read_u32 \<lparr>buf = ?d, cur = 0\<rparr> = Inr (1, \<lparr>buf = ?d, cur = 4\<rparr>)"
    by (simp add: ds_read_u32_def ds_read_def le_nat_def)
  have c2: "(if (1::u32) \<noteq> 1 then ds_read_u32 \<lparr>buf = ?d, cur = 4\<rparr> else Inr (1, \<lparr>buf = ?d, cur = 4\<rparr>))
             = Inr (1, \<lparr>buf = ?d, cur = 4\<rparr>)"
    by simp
  have c3: "example_unpack_genesis (remaining \<lparr>buf = ?d, cur = 4\<rparr>) = Inr (9, 1)"
    by (simp add: example_unpack_genesis_def remaining_def)
  have w3: "read_from example_unpack_genesis \<lparr>buf = ?d, cur = 0\<rparr>
     = Inr (\<lparr>version = 1, first_block_num = 1, chain_context = Genesis 9\<rparr>, \<lparr>buf = ?d, cur = 5\<rparr>)"
    using mp [OF read_from_chain_context [OF c1 le4(5) le4(1) c2, THEN conjunct1,
            of example_unpack_genesis 9 1]] c3
    by (simp add: ds_skip_def)
  let ?e = "[2,0,0,0, 0,0,0,0, 9, 255,255,255,255,255,255,255,255] :: bytes"
  have d1: "ds_read_u32 \<lparr>buf = ?e, cur = 0\<rparr> = Inr (2, \<lparr>buf = ?e, cur = 4\<rparr>)"
    by (simp add: ds_read_u32_def ds_read_def le_nat_def)
  have d2: "(if (2::u32) \<noteq> 1 then ds_read_u32 \<lparr>buf = ?e, cur = 4\<rparr> else Inr (1, \<lparr>buf = ?e, cur = 4\<rparr>))
             = Inr (0, \<lparr>buf = ?e, cur = 8\<rparr>)"
    by (simp add: ds_read_u32_def ds_read_def le_nat_def)
  have d3: "example_unpack_genesis (remaining \<lparr>buf = ?e, cur = 8\<rparr>) = Inr (9, 1)"
    by (simp add: example_unpack_genesis_def remaining_def)
  have d4: "ds_read_u64 (ds_skip \<lparr>buf = ?e, cur = 8\<rparr> 1) = Inr (npos, \<lparr>buf = ?e, cur = 17\<rparr>)"
    by (simp add: ds_skip_def ds_read_u64_def ds_read_def le_nat_def npos_def)
  have w4: "read_from example_unpack_genesis \<lparr>buf = ?e, cur = 0\<rparr>
     = Inr (\<lparr>version = 2, first_block_num = 0, chain_context = Genesis 9\<rparr>, \<lparr>buf = ?e, cur = 17\<rparr>)"
    by (rule mp [OF read_from_chain_context [OF d1 le4(6) le4(7) d2, THEN conjunct2,
            THEN conjunct1]], intro conjI, simp, simp, rule d3, rule d4)
  from w1 w2 w3 w4 show ?thesis by simp
qed

text \<open>
  A version-2 log that starts at block 5: by the table of the claim neither variant
  applies (the version is not 1, the first block number is not 1, the version is below
  3), and the claim has \<open>read_from\<close> fail with \<open>MalformedPreamble\<close>. The code takes every
  log of a version below 3 to hold a genesis state and decodes it.
\<close>

theorem read_from_version_2_partial_log:
  "read_from example_unpack_genesis
       \<lparr>buf = [2,0,0,0, 5,0,0,0, 9, 255,255,255,255,255,255,255,255], cur = 0\<rparr>
     = Inr (\<lparr>version = 2, first_block_num = 5, chain_context = Genesis 9\<rparr>,
            \<lparr>buf = [2,0,0,0, 5,0,0,0, 9, 255,255,255,255,255,255,255,255], cur = 17\<rparr>)"
  by (simp add: read_from_def ds_read_u32_def ds_read_def le_nat_def supported_iff
      initial_version_def read_chain_context_def genesis_iff example_unpack_genesis_def
      remaining_def ds_skip_def ds_read_u64_def npos_def)

subsection \<open>Version-4 entries\<close>

lemma bytes_to_skip_int:
  assumes "m < 2 ^ 62"
  shows "bytes_to_skip sz (of_nat m) = int (unat sz) - 8 - int m"
proof -
  define k where "k = int (unat sz) - 8 - int m"
  have u: "0 \<le> uint sz" "uint sz < 4294967296"
    using uint_lt2p [of sz] by simp_all
  have k: "k = uint sz - 8 - int m" by (simp add: k_def)
  have m: "int m < 4611686018427387904" using assms by simp
  have "- 9223372036854775808 \<le> k" "k < 9223372036854775808"
    using u m unfolding k by linarith+
  then have b: "- (2 ^ 63) \<le> k" "k < 2 ^ 63"
    by simp_all
  have "(ucast sz :: u64) - 8 - of_nat m = word_of_int k"
    by (simp add: k_def)
  then have "bytes_to_skip sz (of_nat m) = sint (word_of_int k :: u64)"
    by (simp only: bytes_to_skip_def)
  also have "\<dots> = k"
    using b by (simp add: sint_sbintrunc' signed_take_bit_int_eq_self)
  finally show ?thesis by (simp add: k_def)
qed

lemma ds_read_u32_cur: "ds_read_u32 ds = Inr (w, ds') \<Longrightarrow> ds' = ds\<lparr>cur := cur ds + 4\<rparr> \<and> cur ds + 4 \<le> length (buf ds)"
  by (auto simp: ds_read_u32_def ds_read_def split: if_splits)

lemma ds_read_u8_cur: "ds_read_u8 ds = Inr (w, ds') \<Longrightarrow> ds' = ds\<lparr>cur := cur ds + 1\<rparr> \<and> cur ds + 1 \<le> length (buf ds)"
  by (auto simp: ds_read_u8_def ds_read_def split: if_splits)

lemma skip_lands:
  fixes a n c :: nat
  shows "\<not> int a - 8 - int (5 + n) < 0 \<Longrightarrow>
         c + 5 + n + nat (int a - 8 - int (5 + n)) = c + a - 8"
  by arith

text \<open>
  Claim C6. Reading a version-4 entry whose size and compression tag can be read fails with
  \<open>MalformedEntry\<close> when the tag is not \<open>none\<close> (0). With the tag \<open>none\<close> and a block that
  decodes from \<open>n\<close> bytes, the bytes consumed since the start of the entry are \<open>5 + n\<close>
  (size, tag, block): the read fails with \<open>MalformedEntry\<close> when \<open>size - 8 - (5 + n)\<close> is
  negative, and otherwise skips exactly that many bytes, which leaves the cursor at
  \<open>start + size - 8\<close>, the position of the trailing back-pointer.
\<close>

theorem unpack_entry_skips_to_back_pointer:
  assumes sz: "ds_read_u32 ds = Inr (sz, ds1)"
      and c: "ds_read_u8 ds1 = Inr (c, ds2)"
  shows "(c \<noteq> 0 \<longrightarrow> unpack_entry cnt ub ds = Inl MalformedEntry)
       \<and> (c = 0 \<and> 0 < cnt \<and> ub (remaining ds2) c = Inr (blk, n) \<and> 5 + n < 2 ^ 62 \<longrightarrow>
            (if int (unat sz) - 8 - int (5 + n) < 0
             then unpack_entry cnt ub ds = Inl MalformedEntry
             else (\<exists>ds'. unpack_entry cnt ub ds = Inr (\<lparr>compression = 0, size' = sz\<rparr>, blk, ds')
                    \<and> cur ds' = cur ds + 5 + n + nat (int (unat sz) - 8 - int (5 + n))
                    \<and> cur ds' = cur ds + unat sz - 8
                    \<and> buf ds' = buf ds)))"
proof -
  have d1: "ds1 = ds\<lparr>cur := cur ds + 4\<rparr>" using ds_read_u32_cur [OF sz] by simp
  have d2: "ds2 = ds\<lparr>cur := cur ds + 5\<rparr>" using ds_read_u8_cur [OF c] d1 by simp
  have p1: "c \<noteq> 0 \<longrightarrow> unpack_entry cnt ub ds = Inl MalformedEntry"
    using sz c by (simp add: unpack_entry_def)
  have p2: "c = 0 \<and> 0 < cnt \<and> ub (remaining ds2) c = Inr (blk, n) \<and> 5 + n < 2 ^ 62 \<longrightarrow>
            (if int (unat sz) - 8 - int (5 + n) < 0
             then unpack_entry cnt ub ds = Inl MalformedEntry
             else (\<exists>ds'. unpack_entry cnt ub ds = Inr (\<lparr>compression = 0, size' = sz\<rparr>, blk, ds')
                    \<and> cur ds' = cur ds + 5 + n + nat (int (unat sz) - 8 - int (5 + n))
                    \<and> cur ds' = cur ds + unat sz - 8
                    \<and> buf ds' = buf ds))"
  proof (intro impI, elim conjE)
    assume c0: "c = 0" and cnt: "0 < cnt" and ub: "ub (remaining ds2) c = Inr (blk, n)"
       and n: "5 + n < 2 ^ 62"
    have off: "(of_nat (cur (ds_skip ds2 n)) - of_nat (cur ds) :: u64) = of_nat (5 + n)"
      by (simp add: d2 ds_skip_def)
    have k: "bytes_to_skip sz (of_nat (cur (ds_skip ds2 n)) - of_nat (cur ds))
               = int (unat sz) - 8 - int (5 + n)"
      unfolding off by (rule bytes_to_skip_int [OF n])
    have ue: "unpack_entry cnt ub ds =
        (if int (unat sz) - 8 - int (5 + n) \<ge> 0
         then Inr (\<lparr>compression = 0, size' = sz\<rparr>, blk,
                   ds_skip (ds_skip ds2 n) (nat (int (unat sz) - 8 - int (5 + n))))
         else Inl MalformedEntry)"
      using sz c ub c0 cnt k by (simp add: unpack_entry_def Let_def)
    show "if int (unat sz) - 8 - int (5 + n) < 0
             then unpack_entry cnt ub ds = Inl MalformedEntry
             else (\<exists>ds'. unpack_entry cnt ub ds = Inr (\<lparr>compression = 0, size' = sz\<rparr>, blk, ds')
                    \<and> cur ds' = cur ds + 5 + n + nat (int (unat sz) - 8 - int (5 + n))
                    \<and> cur ds' = cur ds + unat sz - 8
                    \<and> buf ds' = buf ds)"
    proof (cases "int (unat sz) - 8 - int (5 + n) < 0")
      case True
      then show ?thesis by (simp add: ue)
    next
      case False
      let ?ds' = "ds_skip (ds_skip ds2 n) (nat (int (unat sz) - 8 - int (5 + n)))"
      have e: "unpack_entry cnt ub ds = Inr (\<lparr>compression = 0, size' = sz\<rparr>, blk, ?ds')"
        using False by (simp only: ue) simp
      have c1: "cur ?ds' = cur ds + 5 + n + nat (int (unat sz) - 8 - int (5 + n))"
        by (simp only: ds_skip_def d2) simp
      have c2: "cur ?ds' = cur ds + unat sz - 8"
        unfolding c1 by (rule skip_lands [OF False])
      have c3: "buf ?ds' = buf ds" by (simp add: ds_skip_def d2)
      from False e c1 c2 c3 show ?thesis by (simp only: if_False) blast
    qed
  qed
  from p1 p2 show ?thesis by blast
qed


theorem unpack_entry_skips_to_back_pointer_witness:
  "(\<exists>ds'. unpack_entry 2 (\<lambda>bs c. Inr ((), 1))
            \<lparr>buf = [16,0,0,0, 0, 9, 0,0, 0,0,0,0,0,0,0,0], cur = 0\<rparr>
          = Inr (\<lparr>compression = 0, size' = 16\<rparr>, (), ds') \<and> cur ds' = 8)
   \<and> unpack_entry 2 (\<lambda>bs c. Inr ((), 1))
            \<lparr>buf = [13,0,0,0, 0, 9, 0,0,0,0,0,0,0], cur = 0\<rparr> = Inl MalformedEntry
   \<and> unpack_entry 2 (\<lambda>bs c. Inr ((), 1))
            \<lparr>buf = [16,0,0,0, 1, 9, 0,0, 0,0,0,0,0,0,0,0], cur = 0\<rparr> = Inl MalformedEntry"
proof -
  let ?ub = "\<lambda>(bs :: bytes) (c :: byte). Inr ((), 1 :: nat) :: error + unit \<times> nat"
  let ?a = "[16,0,0,0, 0, 9, 0,0, 0,0,0,0,0,0,0,0] :: bytes"
  have a1: "ds_read_u32 \<lparr>buf = ?a, cur = 0\<rparr> = Inr (16, \<lparr>buf = ?a, cur = 4\<rparr>)"
    by (simp add: ds_read_u32_def ds_read_def le_nat_def)
  have a2: "ds_read_u8 \<lparr>buf = ?a, cur = 4\<rparr> = Inr (0, \<lparr>buf = ?a, cur = 5\<rparr>)"
    by (simp add: ds_read_u8_def ds_read_def le_nat_def)
  have a3: "(0::byte) = 0 \<and> (0::nat) < 2 \<and> ?ub (remaining \<lparr>buf = ?a, cur = 5\<rparr>) 0 = Inr ((), 1)
              \<and> (5::nat) + 1 < 2 ^ 62"
    by simp
  have w1: "\<exists>ds'. unpack_entry 2 ?ub \<lparr>buf = ?a, cur = 0\<rparr>
          = Inr (\<lparr>compression = 0, size' = 16\<rparr>, (), ds') \<and> cur ds' = 8"
    using mp [OF unpack_entry_skips_to_back_pointer [OF a1 a2, THEN conjunct2] a3]
    by auto
  let ?b = "[13,0,0,0, 0, 9, 0,0,0,0,0,0,0] :: bytes"
  have b1: "ds_read_u32 \<lparr>buf = ?b, cur = 0\<rparr> = Inr (13, \<lparr>buf = ?b, cur = 4\<rparr>)"
    by (simp add: ds_read_u32_def ds_read_def le_nat_def)
  have b2: "ds_read_u8 \<lparr>buf = ?b, cur = 4\<rparr> = Inr (0, \<lparr>buf = ?b, cur = 5\<rparr>)"
    by (simp add: ds_read_u8_def ds_read_def le_nat_def)
  have b3: "(0::byte) = 0 \<and> (0::nat) < 2 \<and> ?ub (remaining \<lparr>buf = ?b, cur = 5\<rparr>) 0 = Inr ((), 1)
              \<and> (5::nat) + 1 < 2 ^ 62"
    by simp
  have w2: "unpack_entry 2 ?ub \<lparr>buf = ?b, cur = 0\<rparr> = Inl MalformedEntry"
    using mp [OF unpack_entry_skips_to_back_pointer [OF b1 b2, THEN conjunct2] b3]
    by simp
  let ?c = "[16,0,0,0, 1, 9, 0,0, 0,0,0,0,0,0,0,0] :: bytes"
  have c1: "ds_read_u32 \<lparr>buf = ?c, cur = 0\<rparr> = Inr (16, \<lparr>buf = ?c, cur = 4\<rparr>)"
    by (simp add: ds_read_u32_def ds_read_def le_nat_def)
  have c2: "ds_read_u8 \<lparr>buf = ?c, cur = 4\<rparr> = Inr (1, \<lparr>buf = ?c, cur = 5\<rparr>)"
    by (simp add: ds_read_u8_def ds_read_def le_nat_def)
  have w3: "unpack_entry 2 ?ub \<lparr>buf = ?c, cur = 0\<rparr> = Inl MalformedEntry"
    using unpack_entry_skips_to_back_pointer [OF c1 c2, THEN conjunct1, of 2 ?ub]
    by simp
  from w1 w2 w3 show ?thesis by blast
qed

subsection \<open>Evaluating the example files\<close>

lemma le_bytes_numeral:
  "le_bytes (numeral k) v = of_nat (v mod 256) # le_bytes (pred_numeral k) (v div 256)"
proof -
  have e: "(numeral k :: nat) = Suc (pred_numeral k)" by (rule numeral_eq_Suc)
  show ?thesis by (subst e) (rule le_bytes.simps)
qed

lemma replicate_num:
  "replicate (numeral k) x = x # replicate (pred_numeral k) x"
proof -
  have e: "(numeral k :: nat) = Suc (pred_numeral k)" by (rule numeral_eq_Suc)
  show ?thesis by (subst e) simp
qed

lemmas view_defs = data_size_def data_version_def data_first_block_num_def
  last_block_position_def read_buffer_u64_def read_buffer_u32_def read_bytes_def le_nat_def
  block_num_at_def offset_to_block_start_def pruned_transaction_version_def
  endian_reverse_u32_def le32_def last_block_num_of_def num_blocks_def le_bytes_numeral

lemma example_open:
  "block_log_data_open no_genesis example_fs ''d/blocks.log''
     = Inr (example_data, \<lparr>buf = example_log, cur = 48\<rparr>)"
  by (simp add: block_log_data_open_def example_fs_def example_log_def example_data_def
      example_chain_id_def read_from_def ds_read_u32_def ds_read_def le_nat_def
      read_chain_context_def ds_read_u64_def npos_def initial_version_def supported_iff
      genesis_iff chain_id_iff sizeof_chain_id_def)

lemma example_index_open:
  "block_log_index_open example_fs ''d/blocks.index'' = Inr example_index"
  by (simp add: block_log_index_open_def example_fs_def example_index_def)

lemma example_last_block_position: "last_block_position example_data = Inr 48"
  by (simp add: example_data_def example_log_def view_defs)

lemma example_last_block_num: "last_block_num_of example_data = Inr 2"
  by (simp add: example_data_def example_log_def view_defs)

lemma example_num_blocks: "num_blocks example_data = Inr 1"
  by (simp add: num_blocks_def example_last_block_num)
     (simp add: example_data_def example_log_def view_defs)

lemma example_first_block_num: "data_first_block_num example_data = 2"
  by (simp add: example_data_def data_first_block_num_def)

lemma example_archive:
  "block_log_archive_open no_genesis example_fs ''d''
     = Inr \<lparr>block_file_name = ''d/blocks.log'', index_file_name = ''d/blocks.index'',
            archive_log_data = example_data, archive_log_index = example_index\<rparr>"
  by (simp add: block_log_archive_open_def path_join_def example_open example_index_open
      example_num_blocks index_num_blocks_def)
     (simp add: example_index_def)

subsection \<open>Matching an index against its log\<close>

lemma index_matches_data_true_iff:
  "index_matches_data f p log = Inr True \<longleftrightarrow>
     (\<exists>idx nb l. f p = Some idx \<and> num_blocks log = Inr nb \<and> length idx div 8 \<noteq> unat nb
        \<and> 8 \<le> length idx \<and> last_block_position log = Inr l
        \<and> of_nat (le_nat (drop (length idx - 8) idx)) = l)"
  by (auto simp: index_matches_data_def Let_def split: option.splits sum.splits)

lemma index_matches_data_same_count:
  "f p = Some idx \<Longrightarrow> num_blocks log = Inr nb \<Longrightarrow> length idx div 8 = unat nb \<Longrightarrow>
     index_matches_data f p log = Inr False"
  by (simp add: index_matches_data_def)

text \<open>
  Claim C1 (the code departs from it). The example index holds one position, the example
  log holds one block, and the last 8 bytes of the index are the last block position of
  the log: the index matches the log, and \<open>index_matches_data\<close> is false. With a second
  position in front, the index holds two positions for one block and
  \<open>index_matches_data\<close> is true: the comparison of the two counts is inverted.
\<close>

theorem index_matches_data_example:
  "example_fs ''d/blocks.index'' = Some example_index
   \<and> length example_index div 8 = 1
   \<and> num_blocks example_data = Inr 1
   \<and> read_buffer_u64 example_index (length example_index - 8) = Inr 48
   \<and> last_block_position example_data = Inr 48
   \<and> index_matches_data example_fs ''d/blocks.index'' example_data = Inr False
   \<and> index_matches_data [''d/blocks.index'' \<mapsto> [0,0,0,0,0,0,0,0] @ example_index]
        ''d/blocks.index'' example_data = Inr True"
proof -
  have a: "example_fs ''d/blocks.index'' = Some example_index"
    by (simp add: example_fs_def)
  have b: "length example_index div 8 = 1" by (simp add: example_index_def)
  have c: "read_buffer_u64 example_index (length example_index - 8) = Inr 48"
    by (simp add: example_index_def read_buffer_u64_def read_bytes_def le_nat_def)
  have d: "index_matches_data example_fs ''d/blocks.index'' example_data = Inr False"
    using index_matches_data_same_count
            [of example_fs "''d/blocks.index''" example_index example_data 1]
          a example_num_blocks b
    by simp
  have e: "index_matches_data [''d/blocks.index'' \<mapsto> [0,0,0,0,0,0,0,0] @ example_index]
        ''d/blocks.index'' example_data = Inr True"
    by (simp add: index_matches_data_def example_num_blocks example_last_block_position)
       (simp add: example_index_def le_nat_def)
  from a b c d e example_num_blocks example_last_block_position show ?thesis by simp
qed

subsection \<open>Trimming the end\<close>

lemma trim_blocklog_end_slot_outside:
  assumes a: "block_log_archive_open ug f dir = Inr a"
      and l: "last_block_num_of (archive_log_data a) = Inr l"
      and small: "length (archive_log_index a) div 8 < 2 ^ 32"
  shows "length (archive_log_index a)
           < 8 * unat (l + 1 - data_first_block_num (archive_log_data a)) + 8"
proof -
  let ?d = "archive_log_data a" and ?idx = "archive_log_index a"
  from a obtain nb where nb: "num_blocks ?d = Inr nb"
    and cnt: "nb = of_int (index_num_blocks ?idx)" and m: "length ?idx mod 8 = 0"
    by (auto simp: block_log_archive_open_def Let_def block_log_index_open_def
        split: sum.splits option.splits if_splits)
  have u: "unat nb = length ?idx div 8"
    using small by (simp add: cnt index_num_blocks_def unat_of_nat)
  have len: "8 * (length ?idx div 8) = length ?idx" using m by presburger
  show ?thesis
  proof (cases "first_block_pos ?d = data_size ?d")
    case True
    with nb have "nb = 0" by (simp add: num_blocks_def)
    with u len have "length ?idx = 0" by simp
    then show ?thesis by simp
  next
    case False
    with nb l have "nb = l - data_first_block_num ?d + 1" by (simp add: num_blocks_def)
    then have "l + 1 - data_first_block_num ?d = nb" by simp
    then show ?thesis using u len by simp
  qed
qed

text \<open>
  Claim C8 (the code departs from it). For \<open>n\<close> equal to the last block of the log, here
  block 2 of the example log, nothing is to be trimmed. \<open>trim_blocklog_end\<close> passes both
  range checks and reads the index slot \<open>n + 1 - first_block_num\<close>, which begins where the
  index ends: no position is stored there. The bytes read are the zero fill of the last
  page of the mapping, so that the log is resized to 0 bytes and the call returns 0.
\<close>

theorem trim_blocklog_end_last_block_example:
  "last_block_num_of example_data = Inr 2
   \<and> length example_index = 8
   \<and> 8 * unat (2 + 1 - data_first_block_num example_data) = length example_index
   \<and> nth_block_position example_index (2 + 1 - data_first_block_num example_data) = Inr 0
   \<and> trim_blocklog_end no_genesis example_fs ''d'' 2
       = Inr (0, [''d/blocks.log'' \<mapsto> [], ''d/blocks.index'' \<mapsto> example_index])"
proof -
  have i: "length example_index = 8" by (simp add: example_index_def)
  have s: "8 * unat (2 + 1 - data_first_block_num example_data) = length example_index"
    by (simp add: i example_first_block_num)
  have n: "nth_block_position example_index (2 + 1 - data_first_block_num example_data)
       = Inr 0"
    by (simp add: nth_block_position_def read_buffer_u64_def read_bytes_def i
        example_first_block_num mapped_size_def page_size_def le_nat_def replicate_num)
  have t: "trim_blocklog_end no_genesis example_fs ''d'' 2
       = Inr (0, [''d/blocks.log'' \<mapsto> [], ''d/blocks.index'' \<mapsto> example_index])"
    using n
    by (simp add: trim_blocklog_end_def example_archive example_last_block_num
        example_first_block_num)
       (simp add: resize_file_def resize_bytes_def example_fs_def i fun_eq_iff)
  from example_last_block_num i s n t show ?thesis by simp
qed

subsection \<open>Recovery from an incomplete head\<close>









subsection \<open>Appending\<close>

text \<open>
  Claim C3. \<open>append\<close> makes its two checks in this order, before it writes anything. It
  fails with \<open>AppendBeforeReset\<close> whenever the genesis has not been written; when that
  check passes, it fails with \<open>IndexDesync\<close> whenever the length of the index file (its
  write position after \<^verbatim>\<open>seek_end(0)\<close>) is not \<open>8 * (block_num - first_block_num)\<close>, the
  difference taken in 32 bits as the code does. In both cases the state, and with it the
  log and the index, is the one before the call.
\<close>

theorem append_checks:
  "(\<not> genesis_written_to_block_log st \<longrightarrow>
      append cl st b c = (Inl AppendBeforeReset, st))
   \<and> (genesis_written_to_block_log st
        \<and> length (file_content (fs st) (index_file st))
             \<noteq> 8 * unat (block_num cl b - first_block_num (preamble st)) \<longrightarrow>
      append cl st b c = (Inl IndexDesync, st))
   \<and> (\<not> genesis_written_to_block_log st
        \<or> length (file_content (fs st) (index_file st))
             \<noteq> 8 * unat (block_num cl b - first_block_num (preamble st)) \<longrightarrow>
      (\<exists>e. fst (append cl st b c) = Inl e)
      \<and> fs (snd (append cl st b c)) = fs st)"
  by (simp add: append_def)

theorem append_checks_witness:
  "append example_chain ((example_store example_log example_index)
        \<lparr>genesis_written_to_block_log := False\<rparr>) \<lparr>header = 3, transactions = []\<rparr> 0
     = (Inl AppendBeforeReset,
        (example_store example_log example_index)\<lparr>genesis_written_to_block_log := False\<rparr>)
   \<and> append example_chain (example_store example_log example_index)
        \<lparr>header = 4, transactions = []\<rparr> 0
     = (Inl IndexDesync, example_store example_log example_index)"
proof -
  let ?s = "example_store example_log example_index"
  have a: "\<not> genesis_written_to_block_log (?s\<lparr>genesis_written_to_block_log := False\<rparr>)"
    by simp
  have b: "genesis_written_to_block_log ?s
        \<and> length (file_content (fs ?s) (index_file ?s))
             \<noteq> 8 * unat (block_num example_chain \<lparr>header = 4, transactions = []\<rparr>
                          - first_block_num (preamble ?s))"
    by (simp add: example_store_def file_content_def example_index_def block_num_def
        example_chain_def)
  show ?thesis
    using mp [OF append_checks [THEN conjunct1] a, of example_chain
                 "\<lparr>header = 3, transactions = []\<rparr>" 0]
          mp [OF append_checks [THEN conjunct2, THEN conjunct1] b, of 0]
    by simp
qed

subsection \<open>Reading a block id by number\<close>

lemma upper_bound_index_le: "upper_bound_index coll n \<le> length coll"
  by (simp add: upper_bound_index_def length_takeWhile_le)

lemma upper_bound_index_pred:
  assumes "0 < upper_bound_index coll n"
  shows "fst (coll ! (upper_bound_index coll n - 1)) \<le> n"
proof -
  let ?P = "\<lambda>(k, m :: mapped_type). k \<le> n"
  let ?i = "upper_bound_index coll n - 1"
  have i: "?i < length (takeWhile ?P coll)"
    using assms by (simp add: upper_bound_index_def)
  then have "takeWhile ?P coll ! ?i \<in> set (takeWhile ?P coll)" by (rule nth_mem)
  then have "?P (takeWhile ?P coll ! ?i)" by (rule set_takeWhileD [THEN conjunct2])
  moreover have "takeWhile ?P coll ! ?i = coll ! ?i" using i by (rule takeWhile_nth)
  ultimately show ?thesis by (simp add: case_prod_unfold)
qed

lemma upper_bound_index_pos:
  assumes "coll \<noteq> []" and "\<not> n < fst (hd coll)"
  shows "0 < upper_bound_index coll n"
  using assms by (cases coll) (auto simp: upper_bound_index_def)

lemma set_active_item_not_found:
  assumes cat: "\<forall>(k, m) \<in> set (collection c). \<not> (k \<le> n \<and> n \<le> last_block_num m)"
  shows "fst (set_active_item ug f c n) = False"
proof -
  have search: "collection c \<noteq> [] \<Longrightarrow> \<not> n < fst (hd (collection c)) \<Longrightarrow>
      \<not> n \<le> last_block_num (snd (collection c ! (upper_bound_index (collection c) n - 1)))"
  proof -
    assume ne: "collection c \<noteq> []" and ge: "\<not> n < fst (hd (collection c))"
    let ?i = "upper_bound_index (collection c) n - 1"
    have p: "0 < upper_bound_index (collection c) n" by (rule upper_bound_index_pos [OF ne ge])
    then have "?i < length (collection c)"
      using upper_bound_index_le [of "collection c" n] by simp
    then have "collection c ! ?i \<in> set (collection c)" by (rule nth_mem)
    with cat have "\<not> (fst (collection c ! ?i) \<le> n
                     \<and> n \<le> last_block_num (snd (collection c ! ?i)))"
      by (auto simp: case_prod_unfold)
    with upper_bound_index_pred [OF p] show ?thesis by simp
  qed
  have active: "\<And>a. a < length (collection c) \<Longrightarrow>
      \<not> (fst (collection c ! a) \<le> n \<and> n \<le> last_block_num (snd (collection c ! a)))"
    using cat by (auto simp: case_prod_unfold dest!: nth_mem)
  show ?thesis
    using search active
    by (auto simp: set_active_item_def Let_def split: option.splits sum.splits)
qed

text \<open>
  Claim C9. When the block number lies outside the range of the live log (there is no
  head, or the number is not between the first block number of the preamble and the number
  of the head) and in the range of no segment of the catalog, \<open>read_block_id_by_num\<close>
  returns the default block id and raises no error. The files are the ones before the call.
\<close>

theorem read_block_id_by_num_unknown_block:
  assumes live: "\<forall>h. head st = Some h \<longrightarrow>
                    \<not> (first_block_num (preamble st) \<le> n \<and> n \<le> block_num cl h)"
      and cat: "\<forall>(k, m) \<in> set (collection (catalog st)). \<not> (k \<le> n \<and> n \<le> last_block_num m)"
  shows "\<exists>st'. read_block_id_by_num cl st n = Inr (empty_block_id, st')
               \<and> fs st' = fs st \<and> head st' = head st \<and> preamble st' = preamble st"
proof -
  have p: "get_block_pos cl st n = Inr npos"
    using live by (auto simp: get_block_pos_def split: option.splits)
  obtain r c where s: "set_active_item (unpack_genesis cl) (fs st) (catalog st) n = (r, c)"
    by (cases "set_active_item (unpack_genesis cl) (fs st) (catalog st) n")
  with set_active_item_not_found [OF cat, of "unpack_genesis cl" "fs st"] have "r = False"
    by simp
  with p s have "read_block_id_by_num cl st n = Inr (empty_block_id, st\<lparr>catalog := c\<rparr>)"
    by (simp add: read_block_id_by_num_def)
  then show ?thesis by simp
qed

theorem read_block_id_by_num_unknown_block_witness:
  "(\<exists>st'. read_block_id_by_num example_chain
             ((example_store example_log example_index)
                \<lparr>head := Some \<lparr>header = 2, transactions = []\<rparr>,
                 catalog := example_catalog
                   \<lparr>collection := [(10, \<lparr>last_block_num = 20,
                                          filename_base = ''d/blocks-10-20''\<rparr>)]\<rparr>\<rparr>) 5
           = Inr (empty_block_id, st'))
   \<and> read_block_id_by_num example_chain
        ((example_store (take 70 example_log @ [9] @ drop 71 example_log) example_index)
           \<lparr>head := Some \<lparr>header = 2, transactions = []\<rparr>\<rparr>) 2
       = Inl WrongBlock"
proof -
  let ?st = "(example_store example_log example_index)
                \<lparr>head := Some \<lparr>header = 2, transactions = []\<rparr>,
                 catalog := example_catalog
                   \<lparr>collection := [(10, \<lparr>last_block_num = 20,
                                          filename_base = ''d/blocks-10-20''\<rparr>)]\<rparr>\<rparr>"
  have live: "\<forall>h. head ?st = Some h \<longrightarrow>
                \<not> (first_block_num (preamble ?st) \<le> 5 \<and> 5 \<le> block_num example_chain h)"
    by (simp add: example_store_def block_num_def example_chain_def)
  have cat: "\<forall>(k, m) \<in> set (collection (catalog ?st)). \<not> (k \<le> 5 \<and> 5 \<le> last_block_num m)"
    by (simp add: example_catalog_def)
  have w1: "\<exists>st'. read_block_id_by_num example_chain ?st 5 = Inr (empty_block_id, st')"
    using read_block_id_by_num_unknown_block [OF live cat] by blast
  have w2: "read_block_id_by_num example_chain
        ((example_store (take 70 example_log @ [9] @ drop 71 example_log) example_index)
           \<lparr>head := Some \<lparr>header = 2, transactions = []\<rparr>\<rparr>) 2
       = Inl WrongBlock"
    by (simp add: read_block_id_by_num_def get_block_pos_def example_store_def block_num_def
        example_chain_def file_content_def example_index_def ds_read_u64_def ds_read_def
        le_nat_def npos_def read_block_id_def ds_read_u32_def ds_read_u8_def example_log_def
        pruned_transaction_version_def remaining_def example_unpack_header_def)
  from w1 w2 show ?thesis by simp
qed

subsection \<open>Rotation\<close>

lemma parent_path_join [simp]: "parent_path (path_join dir ''blocks.log'') = dir"
  by (simp add: parent_path_def path_join_def)

lemma evict_frame:
  assumes "evict ad f xs = (None, f')"
      and "\<forall>(k, m) \<in> set xs. p \<notin> set (segment_paths ad m)"
  shows "f' p = f p"
  using assms
proof (induction ad f xs rule: evict.induct)
  case (1 ad f)
  then show ?case by simp
next
  case (2 ad f k m rest)
  show ?case
  proof (cases "ad = []")
    case True
    let ?f1 = "remove_file (remove_file f (log_name (filename_base m)))
                 (index_name (filename_base m))"
    from True "2.prems"(1) have e: "evict ad ?f1 rest = (None, f')" by (simp add: Let_def)
    have p: "p \<notin> set (segment_paths ad m)" using "2.prems"(2) by simp
    then have "?f1 p = f p" by (simp add: remove_file_def segment_paths_def)
    moreover have "f' p = ?f1 p"
      using "2.IH"(1) [OF refl True e] "2.prems"(2) by simp
    ultimately show ?thesis by simp
  next
    case False
    let ?new = "path_join ad (path_filename (filename_base m))"
    from False "2.prems"(1) obtain f1 f2 where
      r1: "rename_file f (log_name (filename_base m)) (log_name ?new) = Inr f1" and
      r2: "rename_file f1 (index_name (filename_base m)) (index_name ?new) = Inr f2" and
      e: "evict ad f2 rest = (None, f')"
      by (auto simp: Let_def split: sum.splits)
    have p: "p \<notin> set (segment_paths ad m)" using "2.prems"(2) by simp
    have "f2 p = f p"
      using r1 r2 p by (auto simp: rename_file_def segment_paths_def split: option.splits)
    moreover have "f' p = f2 p"
      using "2.IH"(2) [OF refl False refl r1 r2 e] "2.prems"(2) by simp
    ultimately show ?thesis by simp
  qed
qed

lemma emplace_mem: "k \<notin> fst ` set xs \<Longrightarrow> (k, v) \<in> set (emplace k v xs)"
  by (induction xs) auto

lemma emplace_not_Nil: "emplace k v xs \<noteq> []"
  by (cases xs) (auto split: if_splits)

lemma emplace_hd:
  "xs \<noteq> [] \<Longrightarrow> fst (hd xs) \<le> k \<Longrightarrow> fst (hd (emplace k v xs)) = fst (hd xs)"
  by (cases xs) (auto simp: word_le_nat_alt word_less_nat_alt)

lemma catalog_add_frame:
  assumes "catalog_add f c s e base = (None, f1, c1)"
      and "\<forall>(k, m) \<in> set (collection c). p \<notin> set (segment_paths (archive_dir c) m)"
  shows "f1 p = f p"
proof (cases "length (collection c) \<ge> max_retained_files c")
  case False
  with assms(1) show ?thesis by (simp add: catalog_add_def Let_def)
next
  case True
  let ?n = "if max_retained_files c > 0 then length (collection c) - max_retained_files c + 1
            else length (collection c)"
  from True assms(1) have "evict (archive_dir c) f (take ?n (collection c)) = (None, f1)"
    by (auto simp: catalog_add_def Let_def split: prod.splits option.splits)
  moreover have "\<forall>(k, m) \<in> set (take ?n (collection c)).
                   p \<notin> set (segment_paths (archive_dir c) m)"
    using assms(2) by (auto dest: in_set_takeD)
  ultimately show ?thesis by (rule evict_frame)
qed

lemma catalog_add_collection:
  assumes "catalog_add f c s e base = (None, f1, c1)"
  shows "(max_retained_files c = 0 \<longrightarrow> collection c1 = [])
       \<and> (max_retained_files c > 0 \<longrightarrow> collection c1 \<noteq> [])
       \<and> (max_retained_files c > 0 \<and> s \<notin> fst ` set (collection c) \<longrightarrow>
            (s, \<lparr>last_block_num = e, filename_base = base\<rparr>) \<in> set (collection c1))
       \<and> (length (collection c) < max_retained_files c \<longrightarrow>
            collection c1 = emplace s \<lparr>last_block_num = e, filename_base = base\<rparr> (collection c))"
proof -
  have d: "\<And>n v. s \<notin> fst ` set (collection c) \<Longrightarrow> (s, v) \<notin> set (drop n (collection c))"
    by (force dest: in_set_dropD)
  show ?thesis
    using assms d
    by (auto simp: catalog_add_def Let_def emplace_not_Nil
        split: prod.splits option.splits if_splits intro!: emplace_mem simp: image_iff)
qed

lemma write_log_entry_frame:
  assumes "write_log_entry cl st b c = (r, st1)"
  shows "head st1 = head st \<and> catalog st1 = catalog st \<and> block_file st1 = block_file st
       \<and> index_file st1 = index_file st \<and> preamble st1 = preamble st \<and> stride st1 = stride st
       \<and> genesis_written_to_block_log st1 = genesis_written_to_block_log st"
  using assms by (auto simp: write_log_entry_def Let_def split: sum.splits)

lemma write_log_entry_files:
  assumes "write_log_entry cl st b c = (Inr p, st1)"
  shows "fs st1 (block_file st) \<noteq> None \<and> fs st1 (index_file st) \<noteq> None
         \<and> p = of_nat (length (file_content (fs st) (block_file st)))
         \<and> fs st1 (index_file st) = Some (file_content (fs st) (index_file st) @ le64 p)"
  using assms by (auto simp: write_log_entry_def Let_def split: sum.splits)

lemma segment_paths_distinct:
  "log_name (path_join dir (segment_name a b)) \<noteq> path_join dir ''blocks.log''"
  "log_name (path_join dir (segment_name a b)) \<noteq> path_join dir ''blocks.index''"
  "index_name (path_join dir (segment_name a b)) \<noteq> path_join dir ''blocks.log''"
  "index_name (path_join dir (segment_name a b)) \<noteq> path_join dir ''blocks.index''"
  "log_name (path_join dir (segment_name a b)) \<noteq> index_name (path_join dir (segment_name a b))"
  "path_join dir ''blocks.log'' \<noteq> path_join dir ''blocks.index''"
  by (simp_all add: log_name_def index_name_def path_join_def segment_name_def)

lemma append_success:
  assumes "append cl st b c = (Inr p, st')"
  shows "\<exists>st1. write_log_entry cl st b c = (Inr p, st1) \<and> stride st \<noteq> 0
           \<and> (if unat (block_num cl b) mod stride st = 0
                then split_log cl (st1\<lparr>head := Some b\<rparr>) = (None, st')
                else st' = st1\<lparr>head := Some b\<rparr>)"
proof -
  obtain r st1 where w: "write_log_entry cl st b c = (r, st1)"
    by (cases "write_log_entry cl st b c")
  note f = write_log_entry_frame [OF w]
  from assms w f show ?thesis
    by (auto simp: append_def Let_def split: if_splits sum.splits option.splits prod.splits)
qed

lemma split_log_success:
  assumes s: "split_log cl st2 = (None, st')"
      and h: "head st2 = Some b"
      and bf: "block_file st2 = path_join dir ''blocks.log''"
      and xf: "index_file st2 = path_join dir ''blocks.index''"
      and frame: "\<forall>(k, m) \<in> set (collection (catalog st2)).
                    block_file st2 \<notin> set (segment_paths (archive_dir (catalog st2)) m)
                  \<and> index_file st2 \<notin> set (segment_paths (archive_dir (catalog st2)) m)"
  shows "\<exists>f1 c1.
           catalog_add (fs st2) (catalog st2) (first_block_num (preamble st2)) (block_num cl b)
              (path_join dir (segment_name (first_block_num (preamble st2)) (block_num cl b)))
             = (None, f1, c1)
         \<and> catalog st' = c1
         \<and> fs st' (log_name (path_join dir
                (segment_name (first_block_num (preamble st2)) (block_num cl b))))
             = fs st2 (block_file st2)
         \<and> fs st' (index_name (path_join dir
                (segment_name (first_block_num (preamble st2)) (block_num cl b))))
             = fs st2 (index_file st2)
         \<and> fs st2 (block_file st2) \<noteq> None \<and> fs st2 (index_file st2) \<noteq> None
         \<and> preamble st' =
               \<lparr>version = max_supported_version, first_block_num = block_num cl b + 1,
                chain_context =
                  ChainId (preamble_chain_id (compute_chain_id cl) (preamble st2))\<rparr>
         \<and> fs st' (block_file st2) =
               Some (le32 max_supported_version @ le32 (block_num cl b + 1)
                     @ preamble_chain_id (compute_chain_id cl) (preamble st2) @ le64 npos)
         \<and> fs st' (index_file st2) = Some []
         \<and> head st' = head st2 \<and> block_file st' = block_file st2
         \<and> index_file st' = index_file st2 \<and> stride st' = stride st2"
proof -
  let ?first = "first_block_num (preamble st2)"
  let ?base = "path_join dir (segment_name ?first (block_num cl b))"
  let ?p = "\<lparr>version = max_supported_version, first_block_num = block_num cl b + 1,
             chain_context = ChainId (preamble_chain_id (compute_chain_id cl) (preamble st2))\<rparr>"
  let ?bs = "le32 max_supported_version @ le32 (block_num cl b + 1)
               @ preamble_chain_id (compute_chain_id cl) (preamble st2) @ le64 npos"
  have wt: "write_to (pack_genesis cl) ?p = Inr ?bs"
    by (simp add: write_to_def max_supported_version_def pruned_transaction_version_def
        initial_version_def)
  from s h bf obtain f1 c1 f2 f3 where
    ca: "catalog_add (fs st2) (catalog st2) ?first (block_num cl b) ?base = (None, f1, c1)" and
    r1: "rename_file f1 (block_file st2) (log_name ?base) = Inr f2" and
    r2: "rename_file f2 (index_file st2) (index_name ?base) = Inr f3" and
    st': "st' = st2\<lparr>fs := ((f3(block_file st2 \<mapsto> []))(index_file st2 \<mapsto> []))
                          (block_file st2 \<mapsto> ?bs),
                    catalog := c1, preamble := ?p\<rparr>"
    by (auto simp: split_log_def Let_def wt split: prod.splits option.splits sum.splits)
  have k1: "f1 (block_file st2) = fs st2 (block_file st2)"
    using frame by (intro catalog_add_frame [OF ca]) auto
  have k2: "f1 (index_file st2) = fs st2 (index_file st2)"
    using frame by (intro catalog_add_frame [OF ca]) auto
  note d = segment_paths_distinct segment_paths_distinct [THEN not_sym]
  from r1 obtain d1 where d1: "f1 (block_file st2) = Some d1"
    and f2: "f2 = (f1(block_file st2 := None))(log_name ?base \<mapsto> d1)"
    by (auto simp: rename_file_def split: option.splits)
  from r2 obtain x1 where x1: "f2 (index_file st2) = Some x1"
    and f3: "f3 = (f2(index_file st2 := None))(index_name ?base \<mapsto> x1)"
    by (auto simp: rename_file_def split: option.splits)
  have x1': "f1 (index_file st2) = Some x1"
    using x1 d by (simp add: f2 bf xf split: if_splits)
  have a: "fs st' (log_name ?base) = fs st2 (block_file st2)"
    using d d1 k1 by (simp add: st' f3 f2 bf xf)
  have b: "fs st' (index_name ?base) = fs st2 (index_file st2)"
    using d x1' k2 by (simp add: st' f3 f2 bf xf)
  have c: "fs st' (block_file st2) = Some ?bs" "fs st' (index_file st2) = Some []"
    using d by (simp_all add: st' bf xf)
  from ca a b c d1 x1' k1 k2 show ?thesis
    by (intro exI [of _ f1] exI [of _ c1]) (simp add: st')
qed

lemma write_log_entry_log:
  assumes "write_log_entry cl st b c = (Inr p, st1)"
      and "block_file st \<noteq> index_file st"
  shows "\<exists>bs. fs st1 = ((fs st)
                  (block_file st \<mapsto> file_content (fs st) (block_file st) @ bs @ le64 p))
                  (index_file st \<mapsto> file_content (fs st) (index_file st) @ le64 p)
              \<and> fs st1 (block_file st)
                   = Some (file_content (fs st) (block_file st) @ bs @ le64 p)"
  using assms by (auto simp: write_log_entry_def Let_def split: sum.splits)

lemma append_rotates:
  assumes ok: "append cl st b c = (Inr p, st')"
      and rot: "unat (block_num cl b) mod stride st = 0"
      and bf: "block_file st = path_join dir ''blocks.log''"
      and xf: "index_file st = path_join dir ''blocks.index''"
      and frame: "\<forall>(k, m) \<in> set (collection (catalog st)).
                    block_file st \<notin> set (segment_paths (archive_dir (catalog st)) m)
                  \<and> index_file st \<notin> set (segment_paths (archive_dir (catalog st)) m)"
  shows "(\<exists>bs. fs st' (log_name (path_join dir
                   (segment_name (first_block_num (preamble st)) (block_num cl b))))
               = Some (file_content (fs st) (block_file st) @ bs @ le64 p))
       \<and> fs st' (index_name (path_join dir
                   (segment_name (first_block_num (preamble st)) (block_num cl b))))
           = Some (file_content (fs st) (index_file st) @ le64 p)
       \<and> (0 < max_retained_files (catalog st)
            \<and> first_block_num (preamble st) \<notin> fst ` set (collection (catalog st)) \<longrightarrow>
          (first_block_num (preamble st),
             \<lparr>last_block_num = block_num cl b,
              filename_base = path_join dir
                (segment_name (first_block_num (preamble st)) (block_num cl b))\<rparr>)
            \<in> set (collection (catalog st')))
       \<and> (max_retained_files (catalog st) = 0 \<longrightarrow> collection (catalog st') = [])
       \<and> (0 < max_retained_files (catalog st) \<longrightarrow> collection (catalog st') \<noteq> [])
       \<and> (length (collection (catalog st)) < max_retained_files (catalog st) \<longrightarrow>
            collection (catalog st')
              = emplace (first_block_num (preamble st))
                  \<lparr>last_block_num = block_num cl b,
                   filename_base = path_join dir
                     (segment_name (first_block_num (preamble st)) (block_num cl b))\<rparr>
                  (collection (catalog st)))
       \<and> preamble st' =
            \<lparr>version = max_supported_version, first_block_num = block_num cl b + 1,
             chain_context = ChainId (preamble_chain_id (compute_chain_id cl) (preamble st))\<rparr>
       \<and> fs st' (block_file st) =
            Some (le32 max_supported_version @ le32 (block_num cl b + 1)
                  @ preamble_chain_id (compute_chain_id cl) (preamble st) @ le64 npos)
       \<and> fs st' (index_file st) = Some []
       \<and> head st' = Some b"
proof -
  from append_success [OF ok] rot obtain st1 where
    w: "write_log_entry cl st b c = (Inr p, st1)" and
    s: "split_log cl (st1\<lparr>head := Some b\<rparr>) = (None, st')"
    by auto
  note f = write_log_entry_frame [OF w]
  have ne: "block_file st \<noteq> index_file st"
    by (simp add: bf xf segment_paths_distinct)
  from write_log_entry_log [OF w ne] obtain bs where
    lg: "fs st1 (block_file st) = Some (file_content (fs st) (block_file st) @ bs @ le64 p)"
    by blast
  have ix: "fs st1 (index_file st) = Some (file_content (fs st) (index_file st) @ le64 p)"
    using write_log_entry_files [OF w] by simp
  let ?st2 = "st1\<lparr>head := Some b\<rparr>"
  have "\<forall>(k, m) \<in> set (collection (catalog ?st2)).
           block_file ?st2 \<notin> set (segment_paths (archive_dir (catalog ?st2)) m)
         \<and> index_file ?st2 \<notin> set (segment_paths (archive_dir (catalog ?st2)) m)"
    using frame f by simp
  from split_log_success [OF s _ _ _ this, of b dir] f bf xf
  obtain f1 c1 where
    ca: "catalog_add (fs st1) (catalog st) (first_block_num (preamble st)) (block_num cl b)
           (path_join dir (segment_name (first_block_num (preamble st)) (block_num cl b)))
          = (None, f1, c1)" and
    r: "catalog st' = c1"
       "fs st' (log_name (path_join dir
           (segment_name (first_block_num (preamble st)) (block_num cl b))))
         = fs st1 (block_file st)"
       "fs st' (index_name (path_join dir
           (segment_name (first_block_num (preamble st)) (block_num cl b))))
         = fs st1 (index_file st)"
       "preamble st' =
            \<lparr>version = max_supported_version, first_block_num = block_num cl b + 1,
             chain_context = ChainId (preamble_chain_id (compute_chain_id cl) (preamble st))\<rparr>"
       "fs st' (block_file st) =
            Some (le32 max_supported_version @ le32 (block_num cl b + 1)
                  @ preamble_chain_id (compute_chain_id cl) (preamble st) @ le64 npos)"
       "fs st' (index_file st) = Some []"
       "head st' = Some b"
    by auto
  from catalog_add_collection [OF ca] r lg ix show ?thesis by simp
qed

lemma append_does_not_rotate:
  assumes ok: "append cl st b c = (Inr p, st')"
      and rot: "unat (block_num cl b) mod stride st \<noteq> 0"
      and ne: "block_file st \<noteq> index_file st"
  shows "preamble st' = preamble st \<and> catalog st' = catalog st \<and> head st' = Some b
       \<and> (\<exists>bs. fs st' = ((fs st)
                  (block_file st \<mapsto> file_content (fs st) (block_file st) @ bs @ le64 p))
                  (index_file st \<mapsto> file_content (fs st) (index_file st) @ le64 p))"
proof -
  from append_success [OF ok] rot obtain st1 where
    w: "write_log_entry cl st b c = (Inr p, st1)" and
    s: "st' = st1\<lparr>head := Some b\<rparr>"
    by auto
  from write_log_entry_frame [OF w] write_log_entry_log [OF w ne] s show ?thesis by auto
qed

lemma dec_nat_digit: "n < 10 \<Longrightarrow> dec_nat n = [''0123456789'' ! n]"
  by (simp add: dec_nat.simps)

lemma example_segment_name: "segment_name 2 3 = ''blocks-2-3''"
  by (simp add: segment_name_def dec_int_def dec_nat_digit)

lemma example_write_log_entry:
  "fst (write_log_entry example_chain (example_rotating_store s m) example_block_3 0) = Inr 79"
  by (simp add: write_log_entry_def example_rotating_store_def example_store_def
      example_block_3_def pruned_transaction_version_def pack_entry_def example_chain_def
      example_pack_block_def Let_def file_content_def example_log_def)

lemma example_append:
  assumes s: "s = 2 \<or> s = 3"
  shows "fst (append example_chain (example_rotating_store s m) example_block_3 0) = Inr 79"
proof -
  obtain st1 where w: "write_log_entry example_chain (example_rotating_store s m) example_block_3 0
                         = (Inr 79, st1)"
    using example_write_log_entry [of s m]
    by (cases "write_log_entry example_chain (example_rotating_store s m) example_block_3 0") auto
  note f = write_log_entry_frame [OF w]
  have files: "fs st1 ''d/blocks.log'' \<noteq> None" "fs st1 ''d/blocks.index'' \<noteq> None"
    using write_log_entry_files [OF w] by (simp_all add: example_rotating_store_def example_store_def)
  have ca: "catalog_add (fs st1) (catalog st1) 2 3 (path_join ''d'' ''blocks-2-3'')
              = (None, fs st1, catalog st1\<lparr>collection :=
                   if m = 0 then [] else [(2, \<lparr>last_block_num = 3, filename_base = ''d/blocks-2-3''\<rparr>)]\<rparr>)"
    using f by (simp add: catalog_add_def example_rotating_store_def example_store_def
        example_catalog_def path_join_def)
  have "fst (split_log example_chain (st1\<lparr>head := Some example_block_3\<rparr>)) = None"
    using f files
    apply (simp add: split_log_def Let_def example_rotating_store_def example_store_def)
    apply (simp add: block_num_def example_chain_def example_block_3_def example_segment_name parent_path_def)
    using ca apply (simp add: example_rotating_store_def example_store_def path_join_def)
    apply (auto simp: rename_file_def log_name_def index_name_def write_to_def max_supported_version_def
        pruned_transaction_version_def initial_version_def split: option.splits)
    done
  then obtain st' where sp: "split_log example_chain (st1\<lparr>head := Some example_block_3\<rparr>) = (None, st')"
    by (cases "split_log example_chain (st1\<lparr>head := Some example_block_3\<rparr>)") auto
  let ?S = "example_rotating_store s m"
  have pre: "genesis_written_to_block_log ?S"
       "length (file_content (fs ?S) (index_file ?S))
          = 8 * unat (block_num example_chain example_block_3 - first_block_num (preamble ?S))"
       "unat (block_num example_chain example_block_3) = 3"
    by (simp_all add: example_rotating_store_def example_store_def file_content_def
        example_index_def block_num_def example_chain_def example_block_3_def)
  have st: "stride st1 = s" using f by (simp add: example_rotating_store_def example_store_def)
  show ?thesis
    using s by (auto simp: append_def pre w sp st)
qed

lemma example_append_pair:
  assumes "s = 2 \<or> s = 3"
  shows "append example_chain (example_rotating_store s m) example_block_3 0
           = (Inr 79, snd (append example_chain (example_rotating_store s m) example_block_3 0))"
  using example_append [OF assms, of m]
  by (cases "append example_chain (example_rotating_store s m) example_block_3 0") simp

lemma example_rotating_store_simps:
  "block_file (example_rotating_store s m) = path_join ''d'' ''blocks.log''"
  "index_file (example_rotating_store s m) = path_join ''d'' ''blocks.index''"
  "collection (catalog (example_rotating_store s m)) = []"
  "max_retained_files (catalog (example_rotating_store s m)) = m"
  "stride (example_rotating_store s m) = s"
  "first_block_num (preamble (example_rotating_store s m)) = 2"
  "preamble (example_rotating_store s m)
     = \<lparr>version = 4, first_block_num = 2, chain_context = ChainId example_chain_id\<rparr>"
  "file_content (fs (example_rotating_store s m)) (path_join ''d'' ''blocks.log'') = example_log"
  "file_content (fs (example_rotating_store s m)) (path_join ''d'' ''blocks.index'')
     = example_index"
  "block_num example_chain example_block_3 = 3"
  by (simp_all add: example_rotating_store_def example_store_def example_catalog_def
      path_join_def file_content_def block_num_def example_chain_def example_block_3_def)

text \<open>
  Claim C7 (amended). For every append that succeeds on a store whose live files are
  \<^verbatim>\<open>blocks.log\<close> and \<^verbatim>\<open>blocks.index\<close> of a directory, and whose catalog keeps no segment
  under the name of a live file: when the block number is a multiple of the stride, the
  live log and index, with the new entry, become the files
  \<^verbatim>\<open>blocks-<first_block_num>-<head.num>\<close> \<^verbatim>\<open>.log\<close> and \<^verbatim>\<open>.index\<close> of that directory (the numbers
  printed with \<^verbatim>\<open>%d\<close>), the new live log holds the preamble of version 4 with
  \<open>first_block_num = head.num + 1\<close> and the chain id, the live index is empty, and the
  segment is registered in the catalog when \<open>max_retained_files > 0\<close> and the catalog has no
  segment with that first block number; with \<open>max_retained_files = 0\<close> the catalog records
  nothing. When the block number is not a multiple of the stride there is no rotation: the
  preamble and the catalog are unchanged and the files only grow by the entry.
\<close>

theorem append_rotation:
  assumes ok: "append cl st b c = (Inr p, st')"
      and bf: "block_file st = path_join dir ''blocks.log''"
      and xf: "index_file st = path_join dir ''blocks.index''"
      and frame: "\<forall>(k, m) \<in> set (collection (catalog st)).
                    block_file st \<notin> set (segment_paths (archive_dir (catalog st)) m)
                  \<and> index_file st \<notin> set (segment_paths (archive_dir (catalog st)) m)"
  shows "(unat (block_num cl b) mod stride st = 0 \<longrightarrow>
            (\<exists>bs. fs st' (log_name (path_join dir
                      (segment_name (first_block_num (preamble st)) (block_num cl b))))
                  = Some (file_content (fs st) (block_file st) @ bs @ le64 p))
          \<and> fs st' (index_name (path_join dir
                      (segment_name (first_block_num (preamble st)) (block_num cl b))))
              = Some (file_content (fs st) (index_file st) @ le64 p)
          \<and> (0 < max_retained_files (catalog st)
               \<and> first_block_num (preamble st) \<notin> fst ` set (collection (catalog st)) \<longrightarrow>
             (first_block_num (preamble st),
                \<lparr>last_block_num = block_num cl b,
                 filename_base = path_join dir
                   (segment_name (first_block_num (preamble st)) (block_num cl b))\<rparr>)
               \<in> set (collection (catalog st')))
          \<and> (max_retained_files (catalog st) = 0 \<longrightarrow> collection (catalog st') = [])
          \<and> preamble st' =
               \<lparr>version = 4, first_block_num = block_num cl b + 1,
                chain_context =
                  ChainId (preamble_chain_id (compute_chain_id cl) (preamble st))\<rparr>
          \<and> fs st' (block_file st) =
               Some (le32 4 @ le32 (block_num cl b + 1)
                     @ preamble_chain_id (compute_chain_id cl) (preamble st) @ le64 npos)
          \<and> fs st' (index_file st) = Some []
          \<and> head st' = Some b)
       \<and> (unat (block_num cl b) mod stride st \<noteq> 0 \<longrightarrow>
            preamble st' = preamble st \<and> catalog st' = catalog st \<and> head st' = Some b
          \<and> (\<exists>bs. fs st' = ((fs st)
                  (block_file st \<mapsto> file_content (fs st) (block_file st) @ bs @ le64 p))
                  (index_file st \<mapsto> file_content (fs st) (index_file st) @ le64 p)))"
proof (intro conjI impI)
  assume rot: "unat (block_num cl b) mod stride st = 0"
  note r = append_rotates [OF ok rot bf xf frame]
  have v: "max_supported_version = 4"
    by (simp add: max_supported_version_def pruned_transaction_version_def)
  show "\<exists>bs. fs st' (log_name (path_join dir
                      (segment_name (first_block_num (preamble st)) (block_num cl b))))
                  = Some (file_content (fs st) (block_file st) @ bs @ le64 p)"
    using r by blast
  show "fs st' (index_name (path_join dir
                      (segment_name (first_block_num (preamble st)) (block_num cl b))))
              = Some (file_content (fs st) (index_file st) @ le64 p)"
    using r by blast
  show "(first_block_num (preamble st),
                \<lparr>last_block_num = block_num cl b,
                 filename_base = path_join dir
                   (segment_name (first_block_num (preamble st)) (block_num cl b))\<rparr>)
               \<in> set (collection (catalog st'))"
    if "0 < max_retained_files (catalog st)
               \<and> first_block_num (preamble st) \<notin> fst ` set (collection (catalog st))"
    using r that by blast
  show "collection (catalog st') = []" if "max_retained_files (catalog st) = 0"
    using r that by blast
  show "preamble st' =
               \<lparr>version = 4, first_block_num = block_num cl b + 1,
                chain_context =
                  ChainId (preamble_chain_id (compute_chain_id cl) (preamble st))\<rparr>"
    using r v by simp
  show "fs st' (block_file st) =
               Some (le32 4 @ le32 (block_num cl b + 1)
                     @ preamble_chain_id (compute_chain_id cl) (preamble st) @ le64 npos)"
    using r v by simp
  show "fs st' (index_file st) = Some []" using r by blast
  show "head st' = Some b" using r by blast
next
  assume rot: "unat (block_num cl b) mod stride st \<noteq> 0"
  have ne: "block_file st \<noteq> index_file st"
    by (simp add: bf xf segment_paths_distinct)
  note r = append_does_not_rotate [OF ok rot ne]
  show "preamble st' = preamble st" "catalog st' = catalog st" "head st' = Some b"
    using r by simp_all
  show "\<exists>bs. fs st' = ((fs st)
                  (block_file st \<mapsto> file_content (fs st) (block_file st) @ bs @ le64 p))
                  (index_file st \<mapsto> file_content (fs st) (index_file st) @ le64 p)"
    using r by simp
qed

theorem append_rotation_witness:
  "fs (snd (append example_chain (example_rotating_store 3 10) example_block_3 0))
       ''d/blocks-2-3.index'' = Some (example_index @ le64 79)
   \<and> (2, \<lparr>last_block_num = 3, filename_base = ''d/blocks-2-3''\<rparr>)
       \<in> set (collection (catalog
            (snd (append example_chain (example_rotating_store 3 10) example_block_3 0))))
   \<and> preamble (snd (append example_chain (example_rotating_store 3 10) example_block_3 0))
       = \<lparr>version = 4, first_block_num = 4, chain_context = ChainId example_chain_id\<rparr>
   \<and> preamble (snd (append example_chain (example_rotating_store 2 10) example_block_3 0))
       = \<lparr>version = 4, first_block_num = 2, chain_context = ChainId example_chain_id\<rparr>
   \<and> collection (catalog
         (snd (append example_chain (example_rotating_store 2 10) example_block_3 0))) = []"
proof -
  note s = example_rotating_store_simps
  have fr: "\<And>s m. \<forall>(k, m') \<in> set (collection (catalog (example_rotating_store s m))).
                block_file (example_rotating_store s m)
                  \<notin> set (segment_paths (archive_dir (catalog (example_rotating_store s m))) m')
              \<and> index_file (example_rotating_store s m)
                  \<notin> set (segment_paths (archive_dir (catalog (example_rotating_store s m))) m')"
    by (simp add: s)
  have n: "path_join ''d'' (segment_name 2 3) = ''d/blocks-2-3''"
    by (simp add: example_segment_name path_join_def)
  have a3: "(3::nat) = 2 \<or> (3::nat) = 3" and a2: "(2::nat) = 2 \<or> (2::nat) = 3" by simp_all
  note r3 = append_rotation [OF example_append_pair [OF a3, of 10] s(1) s(2) fr, THEN conjunct1]
  note r2 = append_rotation [OF example_append_pair [OF a2, of 10] s(1) s(2) fr, THEN conjunct2]
  have w3: "fs (snd (append example_chain (example_rotating_store 3 10) example_block_3 0))
       ''d/blocks-2-3.index'' = Some (example_index @ le64 79)
   \<and> (2, \<lparr>last_block_num = 3, filename_base = ''d/blocks-2-3''\<rparr>)
       \<in> set (collection (catalog
            (snd (append example_chain (example_rotating_store 3 10) example_block_3 0))))
   \<and> preamble (snd (append example_chain (example_rotating_store 3 10) example_block_3 0))
       = \<lparr>version = 4, first_block_num = 4, chain_context = ChainId example_chain_id\<rparr>"
    using r3 by (simp add: s n index_name_def preamble_chain_id_def)
  have w2: "preamble (snd (append example_chain (example_rotating_store 2 10) example_block_3 0))
       = \<lparr>version = 4, first_block_num = 2, chain_context = ChainId example_chain_id\<rparr>
   \<and> collection (catalog
         (snd (append example_chain (example_rotating_store 2 10) example_block_3 0))) = []"
    using r2 by (simp add: s)
  from w3 w2 show ?thesis by simp
qed

text \<open>
  With \<open>max_retained_files = 0\<close> the append of block 3 to the example store, whose stride
  is 3, succeeds and rotates (the segment file exists afterwards), and the catalog holds no
  segment.
\<close>

theorem append_rotation_unregistered:
  "fst (append example_chain (example_rotating_store 3 0) example_block_3 0) = Inr 79
   \<and> unat (block_num example_chain example_block_3) mod stride (example_rotating_store 3 0) = 0
   \<and> fs (snd (append example_chain (example_rotating_store 3 0) example_block_3 0))
        ''d/blocks-2-3.index'' = Some (example_index @ le64 79)
   \<and> collection (catalog
        (snd (append example_chain (example_rotating_store 3 0) example_block_3 0))) = []"
proof -
  note s = example_rotating_store_simps
  have a3: "(3::nat) = 2 \<or> (3::nat) = 3" by simp
  have rot: "unat (block_num example_chain example_block_3)
               mod stride (example_rotating_store 3 0) = 0"
    by (simp add: s)
  have n: "path_join ''d'' (segment_name 2 3) = ''d/blocks-2-3''"
    by (simp add: example_segment_name path_join_def)
  have fr: "\<forall>(k, m') \<in> set (collection (catalog (example_rotating_store 3 0))).
                block_file (example_rotating_store 3 0)
                  \<notin> set (segment_paths (archive_dir (catalog (example_rotating_store 3 0))) m')
              \<and> index_file (example_rotating_store 3 0)
                  \<notin> set (segment_paths (archive_dir (catalog (example_rotating_store 3 0))) m')"
    by (simp add: s)
  from append_rotates [OF example_append_pair [OF a3, of 0] rot s(1) s(2) fr]
       example_append [OF a3, of 0] rot
  show ?thesis by (simp add: s n index_name_def)
qed

subsection \<open>The first block number of the store\<close>

text \<open>
  Claim C10 (amended). \<open>first_block_num()\<close> returns the first block number of the earliest
  segment of the catalog when the catalog is not empty, and the one of the live preamble
  when it is empty. After a rotation the new live preamble starts at \<open>head.num + 1\<close>. When
  \<open>max_retained_files > 0\<close> the catalog is not empty after the rotation, so the value is the
  first block of its earliest retained segment; it is the value from before the rotation
  when nothing was evicted and no retained segment starts after the live log did. When
  \<open>max_retained_files = 0\<close> the catalog stays empty and the value is the new live
  preamble's.
\<close>

theorem first_block_num_after_rotation:
  assumes ok: "append cl st b c = (Inr p, st')"
      and rot: "unat (block_num cl b) mod stride st = 0"
      and bf: "block_file st = path_join dir ''blocks.log''"
      and xf: "index_file st = path_join dir ''blocks.index''"
      and frame: "\<forall>(k, m) \<in> set (collection (catalog st)).
                    block_file st \<notin> set (segment_paths (archive_dir (catalog st)) m)
                  \<and> index_file st \<notin> set (segment_paths (archive_dir (catalog st)) m)"
  shows "block_log_first_block_num st =
           (if collection (catalog st) \<noteq> [] then fst (hd (collection (catalog st)))
            else first_block_num (preamble st))
       \<and> block_log_first_block_num st' =
           (if collection (catalog st') \<noteq> [] then fst (hd (collection (catalog st')))
            else first_block_num (preamble st'))
       \<and> first_block_num (preamble st') = block_num cl b + 1
       \<and> (0 < max_retained_files (catalog st) \<longrightarrow>
            collection (catalog st') \<noteq> []
            \<and> block_log_first_block_num st' = fst (hd (collection (catalog st'))))
       \<and> (length (collection (catalog st)) < max_retained_files (catalog st)
            \<and> (collection (catalog st) \<noteq> [] \<longrightarrow>
                  fst (hd (collection (catalog st))) \<le> first_block_num (preamble st)) \<longrightarrow>
            block_log_first_block_num st' = block_log_first_block_num st)
       \<and> (max_retained_files (catalog st) = 0 \<longrightarrow>
            block_log_first_block_num st' = block_num cl b + 1)"
proof -
  note r = append_rotates [OF ok rot bf xf frame]
  have p: "first_block_num (preamble st') = block_num cl b + 1" using r by simp
  have a: "0 < max_retained_files (catalog st) \<longrightarrow>
            collection (catalog st') \<noteq> []
            \<and> block_log_first_block_num st' = fst (hd (collection (catalog st')))"
    using r by (simp add: block_log_first_block_num_def)
  have z: "max_retained_files (catalog st) = 0 \<longrightarrow>
            block_log_first_block_num st' = block_num cl b + 1"
    using r p by (simp add: block_log_first_block_num_def)
  have s: "length (collection (catalog st)) < max_retained_files (catalog st)
            \<and> (collection (catalog st) \<noteq> [] \<longrightarrow>
                  fst (hd (collection (catalog st))) \<le> first_block_num (preamble st)) \<longrightarrow>
            block_log_first_block_num st' = block_log_first_block_num st"
  proof (intro impI, elim conjE)
    assume l: "length (collection (catalog st)) < max_retained_files (catalog st)"
       and o: "collection (catalog st) \<noteq> [] \<longrightarrow>
                  fst (hd (collection (catalog st))) \<le> first_block_num (preamble st)"
    from r l have c: "collection (catalog st')
              = emplace (first_block_num (preamble st))
                  \<lparr>last_block_num = block_num cl b,
                   filename_base = path_join dir
                     (segment_name (first_block_num (preamble st)) (block_num cl b))\<rparr>
                  (collection (catalog st))"
      by blast
    show "block_log_first_block_num st' = block_log_first_block_num st"
    proof (cases "collection (catalog st) = []")
      case True
      then show ?thesis by (simp add: block_log_first_block_num_def c)
    next
      case False
      with o have "fst (hd (collection (catalog st))) \<le> first_block_num (preamble st)"
        by simp
      from emplace_hd [OF False this] False show ?thesis
        by (simp add: block_log_first_block_num_def c emplace_not_Nil)
    qed
  qed
  from p a z s show ?thesis by (simp add: block_log_first_block_num_def)
qed

theorem first_block_num_after_rotation_witness:
  "block_log_first_block_num (example_rotating_store 3 10) = 2
   \<and> block_log_first_block_num
       (snd (append example_chain (example_rotating_store 3 10) example_block_3 0)) = 2
   \<and> first_block_num (preamble
       (snd (append example_chain (example_rotating_store 3 10) example_block_3 0))) = 4"
proof -
  note s = example_rotating_store_simps
  have a3: "(3::nat) = 2 \<or> (3::nat) = 3" by simp
  have rot: "unat (block_num example_chain example_block_3)
               mod stride (example_rotating_store 3 10) = 0"
    by (simp add: s)
  have fr: "\<forall>(k, m') \<in> set (collection (catalog (example_rotating_store 3 10))).
                block_file (example_rotating_store 3 10)
                  \<notin> set (segment_paths (archive_dir (catalog (example_rotating_store 3 10))) m')
              \<and> index_file (example_rotating_store 3 10)
                  \<notin> set (segment_paths (archive_dir (catalog (example_rotating_store 3 10))) m')"
    by (simp add: s)
  have b: "block_log_first_block_num (example_rotating_store 3 10) = 2"
    by (simp add: block_log_first_block_num_def s)
  note t = first_block_num_after_rotation [OF example_append_pair [OF a3, of 10] rot s(1) s(2) fr]
  have "first_block_num (preamble
       (snd (append example_chain (example_rotating_store 3 10) example_block_3 0))) = 4"
    using t [THEN conjunct2, THEN conjunct2, THEN conjunct1] by (simp add: s)
  moreover have "block_log_first_block_num
       (snd (append example_chain (example_rotating_store 3 10) example_block_3 0)) = 2"
    using t [THEN conjunct2, THEN conjunct2, THEN conjunct2, THEN conjunct2, THEN conjunct1] b
    by (simp add: s)
  ultimately show ?thesis using b by simp
qed

text \<open>
  With \<open>max_retained_files = 0\<close>, after the rotation of the example store \<open>first_block_num()\<close>
  is 4, the first block number of the new live preamble; the rotated segment starts at
  block 2, which was the value before.
\<close>

theorem first_block_num_after_rotation_unretained:
  "fst (append example_chain (example_rotating_store 3 0) example_block_3 0) = Inr 79
   \<and> unat (block_num example_chain example_block_3) mod stride (example_rotating_store 3 0) = 0
   \<and> block_log_first_block_num (example_rotating_store 3 0) = 2
   \<and> fs (snd (append example_chain (example_rotating_store 3 0) example_block_3 0))
        ''d/blocks-2-3.log'' \<noteq> None
   \<and> first_block_num (preamble
        (snd (append example_chain (example_rotating_store 3 0) example_block_3 0))) = 4
   \<and> block_log_first_block_num
        (snd (append example_chain (example_rotating_store 3 0) example_block_3 0)) = 4"
proof -
  note s = example_rotating_store_simps
  have a3: "(3::nat) = 2 \<or> (3::nat) = 3" by simp
  have rot: "unat (block_num example_chain example_block_3)
               mod stride (example_rotating_store 3 0) = 0"
    by (simp add: s)
  have n: "path_join ''d'' (segment_name 2 3) = ''d/blocks-2-3''"
    by (simp add: example_segment_name path_join_def)
  have fr: "\<forall>(k, m') \<in> set (collection (catalog (example_rotating_store 3 0))).
                block_file (example_rotating_store 3 0)
                  \<notin> set (segment_paths (archive_dir (catalog (example_rotating_store 3 0))) m')
              \<and> index_file (example_rotating_store 3 0)
                  \<notin> set (segment_paths (archive_dir (catalog (example_rotating_store 3 0))) m')"
    by (simp add: s)
  note r = append_rotates [OF example_append_pair [OF a3, of 0] rot s(1) s(2) fr]
  have b: "block_log_first_block_num (example_rotating_store 3 0) = 2"
    by (simp add: block_log_first_block_num_def s)
  from r example_append [OF a3, of 0] rot b
  show ?thesis by (auto simp: s n log_name_def block_log_first_block_num_def)
qed

subsection \<open>Pruning\<close>












































end
